theory Spec2Isabelle
  imports Main
begin

section \<open>Shared types\<close>

text \<open>
  Every failure in the TypeScript sources is a plain \<open>new Error(message)\<close> (or an error
  object handed over by the transport library); the model keeps the message.
\<close>

datatype error = Error string

fun message :: "error \<Rightarrow> string" where
  "message (Error s) = s"

text \<open>
  The three adapter classes. The manager holds at most one instance of each, so an
  instance is identified by its class; \<open>constructor_name\<close> is what
  \<open>controller.constructor.name\<close> evaluates to.
\<close>

datatype vendor = OpenDaylightController | PfSenseController | MikroTikController

fun constructor_name :: "vendor \<Rightarrow> string" where
  "constructor_name OpenDaylightController = ''OpenDaylightController''"
| "constructor_name PfSenseController = ''PfSenseController''"
| "constructor_name MikroTikController = ''MikroTikController''"

section \<open>NetworkControllerManager\<close>

record odl_config =
  odl_host :: string
  odl_port :: nat
  odl_username :: string
  odl_password :: string

record pfsense_config =
  pfs_host :: string
  pfs_apiKey :: string
  pfs_apiSecret :: string
  pfs_verifySsl :: "bool option"

record mikrotik_config =
  mt_host :: string
  mt_port :: nat
  mt_username :: string
  mt_password :: string

record manager_config =
  openDaylight :: "odl_config option"
  pfSense :: "pfsense_config option"
  mikroTik :: "mikrotik_config option"
  failoverCheckInterval :: "nat option"

text \<open>
  The operations of the \<open>NetworkController\<close> interface, as the manager invokes them on
  an adapter. The policy of \<open>applyQoSPolicy\<close> is passed through untouched; the manager
  never inspects it, so its type is a parameter.
\<close>

datatype 'p call =
    Connect | Disconnect | GetDevices | GetFlows | GetStats | ApplyQoSPolicy 'p | HealthCheck

text \<open>
  The manager is written against the interface only, so the adapters are an environment:
  the outcome of the call issued when \<open>n\<close> adapter calls have been issued before it.
  \<open>Inl\<close> is a rejected promise. Indexing by \<open>n\<close> lets an adapter answer differently every
  time it is asked, as a backend that goes down and comes back does.
\<close>

record ('p, 'v) adapters =
  on_connect :: "nat \<Rightarrow> vendor \<Rightarrow> error + unit"
  on_disconnect :: "nat \<Rightarrow> vendor \<Rightarrow> error + unit"
  on_healthCheck :: "nat \<Rightarrow> vendor \<Rightarrow> error + bool"
  on_query :: "nat \<Rightarrow> vendor \<Rightarrow> 'p call \<Rightarrow> error + 'v"

text \<open>
  The manager's fields, and \<open>calls\<close>: the adapter calls issued so far, in order. The
  latter is not a field of the class; it records the manager's effect on its adapters.
  \<open>failoverInterval\<close> holds the period of the running timer.
\<close>

record 'p manager =
  controllers :: "vendor list"
  activeController :: "vendor option"
  failoverInterval :: "nat option"
  calls :: "(vendor \<times> 'p call) list"

definition issue :: "vendor \<Rightarrow> 'p call \<Rightarrow> 'p manager \<Rightarrow> 'p manager" where
  "issue c k m = m\<lparr>calls := calls m @ [(c, k)]\<rparr>"

definition initializeControllers :: "manager_config \<Rightarrow> vendor list" where
  "initializeControllers cfg =
     (if openDaylight cfg \<noteq> None then [OpenDaylightController] else []) @
     (if pfSense cfg \<noteq> None then [PfSenseController] else []) @
     (if mikroTik cfg \<noteq> None then [MikroTikController] else [])"

text \<open>\<open>config.failoverCheckInterval || 30000\<close>: a missing or zero interval is 30 seconds.\<close>

definition startFailoverCheck :: "manager_config \<Rightarrow> nat" where
  "startFailoverCheck cfg =
     (case failoverCheckInterval cfg of
        None \<Rightarrow> 30000
      | Some i \<Rightarrow> if i = 0 then 30000 else i)"

definition constructor :: "manager_config \<Rightarrow> 'p manager" where
  "constructor cfg =
     \<lparr>controllers = initializeControllers cfg,
      activeController = None,
      failoverInterval = Some (startFailoverCheck cfg),
      calls = []\<rparr>"

text \<open>
  \<open>selectActiveController\<close>: the \<open>for\<close> loop over \<open>this.controllers\<close>. A health check
  that answers false, or throws, moves on to the next adapter; the first that answers
  true becomes active and ends the loop. Falling out of the loop throws, and assigns
  nothing.
\<close>

fun select_loop ::
  "('p, 'v) adapters \<Rightarrow> vendor list \<Rightarrow> 'p manager \<Rightarrow> (error + unit) \<times> 'p manager" where
  "select_loop env [] m = (Inl (Error ''No healthy controllers available''), m)"
| "select_loop env (c # cs) m =
     (case on_healthCheck env (length (calls m)) c of
        Inr isHealthy \<Rightarrow>
          if isHealthy then (Inr (), (issue c HealthCheck m)\<lparr>activeController := Some c\<rparr>)
          else select_loop env cs (issue c HealthCheck m)
      | Inl e \<Rightarrow> select_loop env cs (issue c HealthCheck m))"

definition selectActiveController ::
  "('p, 'v) adapters \<Rightarrow> 'p manager \<Rightarrow> (error + unit) \<times> 'p manager" where
  "selectActiveController env m = select_loop env (controllers m) m"

text \<open>
  \<open>checkAndFailover\<close>, the body of the timer callback. With an active adapter, its
  health check and the selection that follows an answer of false are inside one
  \<open>try\<close>, whose \<open>catch\<close> runs the selection: a selection that fails there is run a
  second time, and only the second failure leaves the method. The callback awaits
  the method and does not catch, so that error reaches nobody; it is kept in the
  result here.
\<close>

definition checkAndFailover ::
  "('p, 'v) adapters \<Rightarrow> 'p manager \<Rightarrow> (error + unit) \<times> 'p manager" where
  "checkAndFailover env m =
     (case activeController m of
        None \<Rightarrow> selectActiveController env m
      | Some a \<Rightarrow>
          (case on_healthCheck env (length (calls m)) a of
             Inr isHealthy \<Rightarrow>
               if \<not> isHealthy then
                 (case selectActiveController env (issue a HealthCheck m) of
                    (Inr u, m') \<Rightarrow> (Inr u, m')
                  | (Inl error, m') \<Rightarrow> selectActiveController env m')
               else (Inr (), issue a HealthCheck m)
           | Inl error \<Rightarrow> selectActiveController env (issue a HealthCheck m)))"

text \<open>The first loop of \<open>connect\<close>: every adapter is connected, failures are collected.\<close>

fun connect_loop ::
  "('p, 'v) adapters \<Rightarrow> vendor list \<Rightarrow> error list \<Rightarrow> 'p manager \<Rightarrow> error list \<times> 'p manager" where
  "connect_loop env [] errors m = (errors, m)"
| "connect_loop env (c # cs) errors m =
     (case on_connect env (length (calls m)) c of
        Inr _ \<Rightarrow> connect_loop env cs errors (issue c Connect m)
      | Inl e \<Rightarrow> connect_loop env cs (errors @ [e]) (issue c Connect m))"

fun join :: "string \<Rightarrow> string list \<Rightarrow> string" where
  "join sep [] = []"
| "join sep [x] = x"
| "join sep (x # y # ys) = x @ sep @ join sep (y # ys)"

definition Manager_connect ::
  "('p, 'v) adapters \<Rightarrow> 'p manager \<Rightarrow> (error + unit) \<times> 'p manager" where
  "Manager_connect env m =
     (case connect_loop env (controllers m) [] m of
        (errors, m1) \<Rightarrow>
          (case selectActiveController env m1 of
             (Inl e, m2) \<Rightarrow> (Inl e, m2)
           | (Inr _, m2) \<Rightarrow>
               if activeController m2 = None
               then (Inl (Error (''Failed to connect to any controllers: '' @
                                 join '', '' (map message errors))), m2)
               else (Inr (), m2)))"

text \<open>
  \<open>disconnect\<close>: the timer is cleared (the field keeps the stale handle), every adapter
  is disconnected, and only when all of them succeeded is the active pointer cleared.
\<close>

fun disconnect_all ::
  "('p, 'v) adapters \<Rightarrow> vendor list \<Rightarrow> 'p manager \<Rightarrow> error option \<times> 'p manager" where
  "disconnect_all env [] m = (None, m)"
| "disconnect_all env (c # cs) m =
     (case disconnect_all env cs (issue c Disconnect m) of
        (rest, m') \<Rightarrow>
          (case on_disconnect env (length (calls m)) c of
             Inl e \<Rightarrow> (Some e, m')
           | Inr _ \<Rightarrow> (rest, m')))"

definition Manager_disconnect ::
  "('p, 'v) adapters \<Rightarrow> 'p manager \<Rightarrow> (error + unit) \<times> 'p manager" where
  "Manager_disconnect env m =
     (case disconnect_all env (controllers m) m of
        (Some e, m') \<Rightarrow> (Inl e, m')
      | (None, m') \<Rightarrow> (Inr (), m'\<lparr>activeController := None\<rparr>))"

definition ensureActiveController :: "'p manager \<Rightarrow> error + unit" where
  "ensureActiveController m =
     (if activeController m = None then Inl (Error ''No active controller available'')
      else Inr ())"

text \<open>
  The four delegating methods have one body, \<open>ensureActiveController\<close> and then the
  adapter's own promise, returned as it is.
\<close>

definition delegate ::
  "('p, 'v) adapters \<Rightarrow> 'p call \<Rightarrow> 'p manager \<Rightarrow> (error + 'v) \<times> 'p manager" where
  "delegate env k m =
     (case ensureActiveController m of
        Inl e \<Rightarrow> (Inl e, m)
      | Inr _ \<Rightarrow>
          (case activeController m of
             None \<Rightarrow> (Inl (Error ''No active controller available''), m)
           | Some a \<Rightarrow> (on_query env (length (calls m)) a k, issue a k m)))"

definition Manager_getDevices ::
  "('p, 'v) adapters \<Rightarrow> 'p manager \<Rightarrow> (error + 'v) \<times> 'p manager" where
  "Manager_getDevices env m = delegate env GetDevices m"

definition Manager_getFlows ::
  "('p, 'v) adapters \<Rightarrow> 'p manager \<Rightarrow> (error + 'v) \<times> 'p manager" where
  "Manager_getFlows env m = delegate env GetFlows m"

definition Manager_getStats ::
  "('p, 'v) adapters \<Rightarrow> 'p manager \<Rightarrow> (error + 'v) \<times> 'p manager" where
  "Manager_getStats env m = delegate env GetStats m"

definition Manager_applyQoSPolicy ::
  "('p, 'v) adapters \<Rightarrow> 'p \<Rightarrow> 'p manager \<Rightarrow> (error + 'v) \<times> 'p manager" where
  "Manager_applyQoSPolicy env policy m = delegate env (ApplyQoSPolicy policy) m"

definition Manager_healthCheck ::
  "('p, 'v) adapters \<Rightarrow> 'p manager \<Rightarrow> (error + bool) \<times> 'p manager" where
  "Manager_healthCheck env m =
     (case ensureActiveController m of
        Inl e \<Rightarrow> (Inl e, m)
      | Inr _ \<Rightarrow>
          (case activeController m of
             None \<Rightarrow> (Inl (Error ''No active controller available''), m)
           | Some a \<Rightarrow> (on_healthCheck env (length (calls m)) a, issue a HealthCheck m)))"

definition getActiveControllerType :: "'p manager \<Rightarrow> string" where
  "getActiveControllerType m =
     (case activeController m of Some a \<Rightarrow> constructor_name a | None \<Rightarrow> ''None'')"

record status =
  type :: string
  healthy :: bool
  active :: bool

text \<open>
  \<open>getAllControllersStatus\<close>: \<open>map\<close> starts the health check of every adapter, in order;
  \<open>Promise.all\<close> rejects when one of them rejects, and otherwise gives one entry for
  each adapter.
\<close>

fun status_all ::
  "('p, 'v) adapters \<Rightarrow> vendor list \<Rightarrow> 'p manager \<Rightarrow> (error + status list) \<times> 'p manager" where
  "status_all env [] m = (Inr [], m)"
| "status_all env (c # cs) m =
     (case status_all env cs (issue c HealthCheck m) of
        (rest, m') \<Rightarrow>
          (case on_healthCheck env (length (calls m)) c of
             Inl e \<Rightarrow> (Inl e, m')
           | Inr h \<Rightarrow>
               (case rest of
                  Inl e \<Rightarrow> (Inl e, m')
                | Inr sts \<Rightarrow>
                    (Inr (\<lparr>type = constructor_name c, healthy = h,
                           active = (Some c = activeController m)\<rparr> # sts), m'))))"

definition getAllControllersStatus ::
  "('p, 'v) adapters \<Rightarrow> 'p manager \<Rightarrow> (error + status list) \<times> 'p manager" where
  "getAllControllersStatus env m = status_all env (controllers m) m"

section \<open>JavaScript values\<close>

text \<open>
  The adapters read vendor responses as untyped values (\<open>any\<close>), so the model has
  JavaScript's values. Numbers are taken to be integers. \<open>JPromise v\<close> is a promise that
  settles to \<open>v\<close>.
\<close>

datatype jsval =
    JUndefined | JNull | JBool bool | JNum int | JStr string
  | JArr "jsval list" | JObj "(string \<times> jsval) list" | JPromise jsval

text \<open>The message of a \<open>TypeError\<close> depends on the engine; only its being thrown matters.\<close>

definition TypeError :: error where
  "TypeError = Error ''TypeError''"

definition and_then :: "error + 'a \<Rightarrow> ('a \<Rightarrow> error + 'b) \<Rightarrow> error + 'b" where
  "and_then r f = (case r of Inl e \<Rightarrow> Inl e | Inr x \<Rightarrow> f x)"

fun map_result :: "('a \<Rightarrow> error + 'b) \<Rightarrow> 'a list \<Rightarrow> error + 'b list" where
  "map_result f [] = Inr []"
| "map_result f (x # xs) =
     (case f x of
        Inl e \<Rightarrow> Inl e
      | Inr y \<Rightarrow> (case map_result f xs of Inl e \<Rightarrow> Inl e | Inr ys \<Rightarrow> Inr (y # ys)))"

fun truthy :: "jsval \<Rightarrow> bool" where
  "truthy JUndefined = False"
| "truthy JNull = False"
| "truthy (JBool b) = b"
| "truthy (JNum n) = (n \<noteq> 0)"
| "truthy (JStr s) = (s \<noteq> [])"
| "truthy (JArr xs) = True"
| "truthy (JObj kvs) = True"
| "truthy (JPromise v) = True"

text \<open>\<open>a || b\<close>\<close>

definition js_or :: "jsval \<Rightarrow> jsval \<Rightarrow> jsval" where
  "js_or a b = (if truthy a then a else b)"

fun nullish :: "jsval \<Rightarrow> bool" where
  "nullish JUndefined = True"
| "nullish JNull = True"
| "nullish v = False"

text \<open>
  \<open>v.k\<close> for a \<open>v\<close> that is neither \<open>undefined\<close> nor \<open>null\<close>: the stored value, or
  \<open>undefined\<close>. The sources read data fields only, which no primitive or array has.
\<close>

fun field :: "jsval \<Rightarrow> string \<Rightarrow> jsval" where
  "field (JObj kvs) k = (case map_of kvs k of Some v \<Rightarrow> v | None \<Rightarrow> JUndefined)"
| "field v k = JUndefined"

text \<open>\<open>v.k\<close> in general: reading a property of \<open>undefined\<close> or \<open>null\<close> throws.\<close>

definition property :: "jsval \<Rightarrow> string \<Rightarrow> error + jsval" where
  "property v k = (if nullish v then Inl TypeError else Inr (field v k))"

subsection \<open>Numbers and strings\<close>

text \<open>\<open>n.toString()\<close> for an integer \<open>n\<close>: its decimal digits, after a minus sign if it is negative.\<close>

definition digit_char :: "nat \<Rightarrow> char" where
  "digit_char d = ''0123456789'' ! d"

function decimal :: "nat \<Rightarrow> string" where
  "decimal n =
     (if n div 10 = 0 then [digit_char n]
      else decimal (n div 10) @ [digit_char (n mod 10)])"
  by pat_completeness auto
termination
  by (relation "measure id") auto

definition number_toString :: "int \<Rightarrow> string" where
  "number_toString i = (if 0 \<le> i then decimal (nat i) else CHR ''-'' # decimal (nat (- i)))"

text \<open>\<open>String(v)\<close>, which \<open>parseInt\<close> applies to its argument first.\<close>

fun js_toString :: "jsval \<Rightarrow> string" where
  "js_toString JUndefined = ''undefined''"
| "js_toString JNull = ''null''"
| "js_toString (JBool b) = (if b then ''true'' else ''false'')"
| "js_toString (JNum n) = number_toString n"
| "js_toString (JStr s) = s"
| "js_toString (JArr xs) =
     join '','' (map (\<lambda>x. if nullish x then [] else js_toString x) xs)"
| "js_toString (JObj kvs) = ''[object Object]''"
| "js_toString (JPromise v) = ''[object Promise]''"

definition is_space :: "char \<Rightarrow> bool" where
  "is_space c = (c \<in> set [CHR 0x09, CHR 0x0A, CHR 0x0B, CHR 0x0C, CHR 0x0D, CHR '' ''])"

definition digit_val :: "char \<Rightarrow> nat option" where
  "digit_val c =
     map_of [(CHR ''0'', 0), (CHR ''1'', 1), (CHR ''2'', 2), (CHR ''3'', 3), (CHR ''4'', 4),
             (CHR ''5'', 5), (CHR ''6'', 6), (CHR ''7'', 7), (CHR ''8'', 8), (CHR ''9'', 9),
             (CHR ''a'', 10), (CHR ''b'', 11), (CHR ''c'', 12), (CHR ''d'', 13),
             (CHR ''e'', 14), (CHR ''f'', 15),
             (CHR ''A'', 10), (CHR ''B'', 11), (CHR ''C'', 12), (CHR ''D'', 13),
             (CHR ''E'', 14), (CHR ''F'', 15)] c"

fun take_digits :: "nat \<Rightarrow> string \<Rightarrow> nat list" where
  "take_digits radix [] = []"
| "take_digits radix (c # cs) =
     (case digit_val c of
        Some d \<Rightarrow> if d < radix then d # take_digits radix cs else []
      | None \<Rightarrow> [])"

text \<open>
  \<open>parseInt(s)\<close> with no radix: leading white space is skipped, then an optional sign, an
  optional \<open>0x\<close>, and the longest run of digits; no digit at all gives \<open>NaN\<close>, here
  \<open>None\<close>.
\<close>

definition parseInt_string :: "string \<Rightarrow> int option" where
  "parseInt_string s =
     (let s1 = dropWhile is_space s;
          negative = (s1 \<noteq> [] \<and> hd s1 = CHR ''-'');
          s2 = (if s1 \<noteq> [] \<and> (hd s1 = CHR ''-'' \<or> hd s1 = CHR ''+'') then tl s1 else s1);
          hex = (length s2 \<ge> 2 \<and> hd s2 = CHR ''0'' \<and> (hd (tl s2) = CHR ''x'' \<or> hd (tl s2) = CHR ''X''));
          radix = (if hex then 16 else 10);
          ds = take_digits radix (if hex then drop 2 s2 else s2);
          n = int (foldl (\<lambda>a d. a * radix + d) 0 ds)
      in if ds = [] then None else Some (if negative then - n else n))"

definition parseInt :: "jsval \<Rightarrow> int option" where
  "parseInt v = parseInt_string (js_toString v)"

text \<open>\<open>parseInt(v) || 0\<close>: \<open>NaN\<close> and 0 are falsy.\<close>

definition parseInt_or_0 :: "jsval \<Rightarrow> int" where
  "parseInt_or_0 v = (case parseInt v of None \<Rightarrow> 0 | Some n \<Rightarrow> if n \<noteq> 0 then n else 0)"

section \<open>Normalised types\<close>

text \<open>
  \<open>NetworkDevice\<close> and \<open>NetworkStats\<close>, without \<open>lastSeen\<close> and \<open>timestamp\<close>, which are
  the wall clock. The declared field types are not checked at run time, so a field
  holds whatever value the adapter put there.
\<close>

record NetworkDevice =
  dev_id :: jsval
  dev_name :: jsval
  dev_type :: jsval
  ipAddress :: jsval
  dev_status :: string

record NetworkStats =
  bytesIn :: int
  bytesOut :: int
  packetsIn :: int
  packetsOut :: int
  activeConnections :: jsval

record QoSPolicy =
  qos_id :: string
  qos_name :: string
  targetDevice :: string
  bandwidth_min :: int
  bandwidth_max :: int
  priority :: int
  protocol :: "string option"
  ports :: "int list option"

text \<open>\<open>xs.map(f)\<close> where \<open>f\<close> may throw; only an array has \<open>map\<close>.\<close>

definition array_map :: "(jsval \<Rightarrow> error + 'b) \<Rightarrow> jsval \<Rightarrow> error + 'b list" where
  "array_map f v = (case v of JArr xs \<Rightarrow> map_result f xs | _ \<Rightarrow> Inl TypeError)"

section \<open>PfSenseController\<close>

text \<open>
  The adapter's state is its HTTP client, fixed at construction. Each method is a
  function of the outcomes of the requests it sends: \<open>Inr response\<close> for a response,
  \<open>Inl e\<close> for a rejected request. Every \<open>catch\<close> of the data methods logs and rethrows.
\<close>

definition PfSense_connect :: "error + jsval \<Rightarrow> error + unit" where
  "PfSense_connect status_response =
     (case status_response of
        Inr _ \<Rightarrow> Inr ()
      | Inl e \<Rightarrow> Inl (Error ''Connection failed''))"

definition pfsense_device :: "jsval \<Rightarrow> error + NetworkDevice" where
  "pfsense_device iface =
     (if nullish iface then Inl TypeError
      else Inr \<lparr>dev_id = field iface ''if'',
                dev_name = js_or (field iface ''descr'') (field iface ''if''),
                dev_type = JStr ''pfSense Interface'',
                ipAddress = js_or (field iface ''ipaddr'') (JStr ''unknown''),
                dev_status = (if truthy (field iface ''enable'') then ''online'' else ''offline'')\<rparr>)"

definition PfSense_getDevices :: "error + jsval \<Rightarrow> error + NetworkDevice list" where
  "PfSense_getDevices interface_response =
     and_then interface_response (\<lambda>response.
     and_then (property response ''data'') (\<lambda>d.
     and_then (property d ''data'') (\<lambda>ifaces.
     array_map pfsense_device ifaces)))"

text \<open>The body of the \<open>forEach\<close> of \<open>getStats\<close>, and the \<open>forEach\<close> itself.\<close>

definition pfsense_add_iface :: "jsval \<Rightarrow> NetworkStats \<Rightarrow> error + NetworkStats" where
  "pfsense_add_iface iface stats =
     (if nullish iface then Inl TypeError
      else Inr (stats\<lparr>bytesIn := bytesIn stats + parseInt_or_0 (field iface ''inbytes''),
                      bytesOut := bytesOut stats + parseInt_or_0 (field iface ''outbytes''),
                      packetsIn := packetsIn stats + parseInt_or_0 (field iface ''inpkts''),
                      packetsOut := packetsOut stats + parseInt_or_0 (field iface ''outpkts'')\<rparr>))"

fun pfsense_forEach :: "jsval list \<Rightarrow> NetworkStats \<Rightarrow> error + NetworkStats" where
  "pfsense_forEach [] stats = Inr stats"
| "pfsense_forEach (iface # rest) stats =
     (case pfsense_add_iface iface stats of
        Inl e \<Rightarrow> Inl e
      | Inr stats' \<Rightarrow> pfsense_forEach rest stats')"

text \<open>
  \<open>getStats\<close> sends both requests at once and awaits both (\<open>Promise.all\<close>); the counters
  start at 0, the connection count at \<open>states.data.total || 0\<close>.
\<close>

definition PfSense_getStats :: "error + jsval \<Rightarrow> error + jsval \<Rightarrow> error + NetworkStats" where
  "PfSense_getStats stats_response summary_response =
     and_then stats_response (\<lambda>interfaceStats.
     and_then summary_response (\<lambda>states.
     and_then (property states ''data'') (\<lambda>sd.
     and_then (property sd ''total'') (\<lambda>total.
     and_then (property interfaceStats ''data'') (\<lambda>d.
     and_then (property d ''data'') (\<lambda>ifaces.
       (case ifaces of
          JArr xs \<Rightarrow>
            pfsense_forEach xs
              \<lparr>bytesIn = 0, bytesOut = 0, packetsIn = 0, packetsOut = 0,
               activeConnections = js_or total (JNum 0)\<rparr>
        | _ \<Rightarrow> Inl TypeError)))))))"

definition PfSense_healthCheck :: "error + jsval \<Rightarrow> error + bool" where
  "PfSense_healthCheck status_response =
     (case status_response of
        Inr _ \<Rightarrow> Inr True
      | Inl e \<Rightarrow> Inr False)"

section \<open>OpenDaylightController\<close>

definition OpenDaylight_connect :: "error + jsval \<Rightarrow> error + unit" where
  "OpenDaylight_connect topology_response =
     (case topology_response of
        Inr _ \<Rightarrow> Inr ()
      | Inl e \<Rightarrow> Inl (Error ''Connection failed''))"

definition odl_device :: "jsval \<Rightarrow> error + NetworkDevice" where
  "odl_device node =
     (if nullish node then Inl TypeError
      else Inr \<lparr>dev_id = field node ''node-id'',
                dev_name = field node ''node-id'',
                dev_type = JStr ''OpenFlow'',
                ipAddress = js_or (field node ''flow-node-inventory:ip-address'') (JStr ''unknown''),
                dev_status = (if field node ''flow-node-inventory:status'' = JStr ''UP''
                              then ''online'' else ''offline'')\<rparr>)"

text \<open>\<open>topo.node?.map(...) || []\<close>: a topology without nodes contributes nothing.\<close>

definition odl_topology_devices :: "jsval \<Rightarrow> error + NetworkDevice list" where
  "odl_topology_devices topo =
     and_then (property topo ''node'') (\<lambda>nodes.
       if nullish nodes then Inr [] else array_map odl_device nodes)"

definition OpenDaylight_getDevices :: "error + jsval \<Rightarrow> error + NetworkDevice list" where
  "OpenDaylight_getDevices topology_response =
     and_then topology_response (\<lambda>response.
     and_then (property response ''data'') (\<lambda>d.
     and_then (property d ''network-topology'') (\<lambda>nt.
     and_then (property nt ''topology'') (\<lambda>topology.
     and_then (array_map odl_topology_devices topology) (\<lambda>dss.
     Inr (concat dss))))))"

definition OpenDaylight_healthCheck :: "error + jsval \<Rightarrow> error + bool" where
  "OpenDaylight_healthCheck topology_response =
     (case topology_response of
        Inr _ \<Rightarrow> Inr True
      | Inl e \<Rightarrow> Inr False)"

section \<open>MikroTikController\<close>

text \<open>
  The router is reached through a RouterOS client that \<open>connect\<close> creates. \<open>client\<close>
  tells whether the field is set; \<open>written\<close> is every command handed to
  \<open>client.write\<close> so far, with its parameters. The router is an environment: whether
  the connection is accepted, and its reply to the command written after \<open>n\<close> others.
\<close>

type_synonym params = "(string \<times> jsval) list"

record MikroTik =
  client :: bool
  written :: "(string \<times> params) list"

record routeros =
  ros_connect :: "error + unit"
  ros_write :: "nat \<Rightarrow> string \<Rightarrow> params \<Rightarrow> error + jsval"

definition MikroTik_constructor :: MikroTik where
  "MikroTik_constructor = \<lparr>client = False, written = []\<rparr>"

text \<open>\<open>this.client\<close> is assigned before the connection is awaited.\<close>

definition MikroTik_connect :: "routeros \<Rightarrow> MikroTik \<Rightarrow> (error + unit) \<times> MikroTik" where
  "MikroTik_connect ros mt =
     (case ros_connect ros of
        Inr _ \<Rightarrow> (Inr (), mt\<lparr>client := True\<rparr>)
      | Inl e \<Rightarrow> (Inl (Error ''Connection failed''), mt\<lparr>client := True\<rparr>))"

definition executeCommand ::
  "routeros \<Rightarrow> string \<Rightarrow> params \<Rightarrow> MikroTik \<Rightarrow> (error + jsval) \<times> MikroTik" where
  "executeCommand ros command ps mt =
     (if \<not> client mt then (Inl (Error ''Not connected to MikroTik router''), mt)
      else (ros_write ros (length (written mt)) command ps,
            mt\<lparr>written := written mt @ [(command, ps)]\<rparr>))"

text \<open>
  \<open>addresses[0]?.address?.split('/')[0]\<close>. Indexing \<open>undefined\<close> or \<open>null\<close> throws; each
  \<open>?.\<close> ends the whole chain with \<open>undefined\<close>; an address that is not a string has no
  \<open>split\<close>, and calling it throws.
\<close>

fun element0 :: "jsval \<Rightarrow> error + jsval" where
  "element0 JUndefined = Inl TypeError"
| "element0 JNull = Inl TypeError"
| "element0 (JArr xs) = Inr (case xs of [] \<Rightarrow> JUndefined | x # _ \<Rightarrow> x)"
| "element0 (JStr s) = Inr (case s of [] \<Rightarrow> JUndefined | c # _ \<Rightarrow> JStr [c])"
| "element0 (JObj kvs) = Inr (field (JObj kvs) ''0'')"
| "element0 v = Inr JUndefined"

definition first_address :: "jsval \<Rightarrow> error + jsval" where
  "first_address addresses =
     and_then (element0 addresses) (\<lambda>entry.
       if nullish entry then Inr JUndefined
       else (case field entry ''address'' of
               JUndefined \<Rightarrow> Inr JUndefined
             | JNull \<Rightarrow> Inr JUndefined
             | JStr s \<Rightarrow> Inr (JStr (takeWhile (\<lambda>c. c \<noteq> CHR ''/'') s))
             | _ \<Rightarrow> Inl TypeError))"

text \<open>
  \<open>getInterfaceIp\<close> is \<open>async\<close> and catches everything: the value is what its promise
  settles to.
\<close>

definition getInterfaceIp :: "routeros \<Rightarrow> jsval \<Rightarrow> MikroTik \<Rightarrow> jsval \<times> MikroTik" where
  "getInterfaceIp ros interfaceName mt =
     (case executeCommand ros ''/ip/address/print'' [(''?interface'', interfaceName)] mt of
        (Inl e, mt') \<Rightarrow> (JStr ''unknown'', mt')
      | (Inr addresses, mt') \<Rightarrow>
          (case first_address addresses of
             Inl e \<Rightarrow> (JStr ''unknown'', mt')
           | Inr a \<Rightarrow> (js_or a (JStr ''unknown''), mt')))"

text \<open>
  The callback of \<open>interfaces.map\<close> in \<open>getDevices\<close>. It calls \<open>getInterfaceIp\<close> and
  stores what the call returns, without \<open>await\<close>: the lookup is sent, and the field
  holds the promise.
\<close>

fun mikrotik_devices ::
  "routeros \<Rightarrow> jsval list \<Rightarrow> MikroTik \<Rightarrow> (error + NetworkDevice list) \<times> MikroTik" where
  "mikrotik_devices ros [] mt = (Inr [], mt)"
| "mikrotik_devices ros (iface # rest) mt =
     (if nullish iface then (Inl TypeError, mt)
      else
        (case getInterfaceIp ros (field iface ''name'') mt of
           (ip, mt1) \<Rightarrow>
             (case mikrotik_devices ros rest mt1 of
                (Inl e, mt2) \<Rightarrow> (Inl e, mt2)
              | (Inr ds, mt2) \<Rightarrow>
                  (Inr (\<lparr>dev_id = field iface ''.id'',
                         dev_name = field iface ''name'',
                         dev_type = field iface ''type'',
                         ipAddress = JPromise ip,
                         dev_status = (if truthy (field iface ''running'')
                                       then ''online'' else ''offline'')\<rparr> # ds), mt2))))"

definition MikroTik_getDevices ::
  "routeros \<Rightarrow> MikroTik \<Rightarrow> (error + NetworkDevice list) \<times> MikroTik" where
  "MikroTik_getDevices ros mt =
     (case executeCommand ros ''/interface/print'' [] mt of
        (Inl e, mt1) \<Rightarrow> (Inl e, mt1)
      | (Inr interfaces, mt1) \<Rightarrow>
          (case interfaces of
             JArr xs \<Rightarrow> mikrotik_devices ros xs mt1
           | _ \<Rightarrow> (Inl TypeError, mt1)))"

definition queue_params :: "QoSPolicy \<Rightarrow> params" where
  "queue_params policy =
     [(''name'', JStr (qos_name policy)),
      (''target'', JStr (targetDevice policy)),
      (''max-limit'', JStr (number_toString (bandwidth_max policy) @ ''M/'' @
                           number_toString (bandwidth_max policy) @ ''M'')),
      (''limit-at'', JStr (number_toString (bandwidth_min policy) @ ''M/'' @
                          number_toString (bandwidth_min policy) @ ''M'')),
      (''priority'', JStr (number_toString (priority policy))),
      (''comment'', JStr (''QoS policy '' @ qos_id policy))]"

text \<open>\<open>policy.protocol || 'tcp'\<close>: a missing or empty protocol is \<open>'tcp'\<close>.\<close>

definition mangle_params :: "QoSPolicy \<Rightarrow> int \<Rightarrow> params" where
  "mangle_params policy port =
     [(''chain'', JStr ''prerouting''),
      (''dst-port'', JStr (number_toString port)),
      (''protocol'', JStr (case protocol policy of
                             None \<Rightarrow> ''tcp''
                           | Some p \<Rightarrow> if p \<noteq> [] then p else ''tcp'')),
      (''action'', JStr ''mark-connection''),
      (''new-connection-mark'', JStr (qos_name policy @ ''_conn'')),
      (''comment'', JStr (''QoS mark for '' @ qos_name policy))]"

text \<open>The \<open>for\<close> loop over \<open>policy.ports\<close>: one rule for each port, stopping at a failure.\<close>

fun mangle_loop ::
  "routeros \<Rightarrow> QoSPolicy \<Rightarrow> int list \<Rightarrow> MikroTik \<Rightarrow> (error + unit) \<times> MikroTik" where
  "mangle_loop ros policy [] mt = (Inr (), mt)"
| "mangle_loop ros policy (port # rest) mt =
     (case executeCommand ros ''/ip/firewall/mangle/add'' (mangle_params policy port) mt of
        (Inl e, mt') \<Rightarrow> (Inl e, mt')
      | (Inr _, mt') \<Rightarrow> mangle_loop ros policy rest mt')"

definition MikroTik_applyQoSPolicy ::
  "routeros \<Rightarrow> QoSPolicy \<Rightarrow> MikroTik \<Rightarrow> (error + unit) \<times> MikroTik" where
  "MikroTik_applyQoSPolicy ros policy mt =
     (case executeCommand ros ''/queue/simple/add'' (queue_params policy) mt of
        (Inl e, mt1) \<Rightarrow> (Inl e, mt1)
      | (Inr _, mt1) \<Rightarrow>
          (case ports policy of
             None \<Rightarrow> (Inr (), mt1)
           | Some ps \<Rightarrow>
               if length ps > 0 then mangle_loop ros policy ps mt1 else (Inr (), mt1)))"

definition MikroTik_healthCheck :: "routeros \<Rightarrow> MikroTik \<Rightarrow> (error + bool) \<times> MikroTik" where
  "MikroTik_healthCheck ros mt =
     (case executeCommand ros ''/system/resource/print'' [] mt of
        (Inr _, mt') \<Rightarrow> (Inr True, mt')
      | (Inl e, mt') \<Rightarrow> (Inr False, mt'))"

section \<open>Executions and scenarios\<close>

text \<open>
  What happens to a manager after its construction: \<open>connect\<close> is called, the timer
  fires, a caller issues a delegated query. An execution is any sequence of these.
\<close>

datatype 'p event = EConnect | ETick | EQuery "'p call"

fun step :: "('p, 'v) adapters \<Rightarrow> 'p manager \<Rightarrow> 'p event \<Rightarrow> 'p manager" where
  "step env m EConnect = snd (Manager_connect env m)"
| "step env m ETick = snd (checkAndFailover env m)"
| "step env m (EQuery k) = snd (delegate env k m)"

definition run :: "('p, 'v) adapters \<Rightarrow> manager_config \<Rightarrow> 'p event list \<Rightarrow> 'p manager" where
  "run env cfg events = foldl (step env) (constructor cfg) events"

fun is_delegated :: "'p call \<Rightarrow> bool" where
  "is_delegated GetDevices = True"
| "is_delegated GetFlows = True"
| "is_delegated GetStats = True"
| "is_delegated (ApplyQoSPolicy p) = True"
| "is_delegated k = False"

text \<open>The adapter that served the most recent delegated call, read off the call history.\<close>

definition last_served :: "(vendor \<times> 'p call) list \<Rightarrow> vendor option" where
  "last_served cs =
     (let ds = filter (\<lambda>(c, k). is_delegated k) cs
      in if ds = [] then None else Some (fst (last ds)))"

definition configured :: "manager_config \<Rightarrow> vendor \<Rightarrow> bool" where
  "configured cfg v =
     (case v of
        OpenDaylightController \<Rightarrow> openDaylight cfg \<noteq> None
      | PfSenseController \<Rightarrow> pfSense cfg \<noteq> None
      | MikroTikController \<Rightarrow> mikroTik cfg \<noteq> None)"

text \<open>The configuration of the manager's test suite: all three backends.\<close>

definition cfg_all :: manager_config where
  "cfg_all =
     \<lparr>openDaylight = Some \<lparr>odl_host = ''odl.example.com'', odl_port = 8181,
                            odl_username = ''admin'', odl_password = ''admin''\<rparr>,
      pfSense = Some \<lparr>pfs_host = ''pfsense.example.com'', pfs_apiKey = ''test-key'',
                       pfs_apiSecret = ''test-secret'', pfs_verifySsl = None\<rparr>,
      mikroTik = Some \<lparr>mt_host = ''mikrotik.example.com'', mt_port = 8728,
                        mt_username = ''admin'', mt_password = ''admin''\<rparr>,
      failoverCheckInterval = Some 100\<rparr>"

text \<open>
  Adapters whose backends are up or down as \<open>up\<close> says: a backend that is down refuses
  the connection, fails its health check and fails every query with the transport's
  error; one that is up answers a query with its name.
\<close>

definition env_health :: "(vendor \<Rightarrow> bool) \<Rightarrow> (unit, string) adapters" where
  "env_health up =
     \<lparr>on_connect = (\<lambda>n v. if up v then Inr () else Inl (Error ''Connection failed'')),
      on_disconnect = (\<lambda>n v. Inr ()),
      on_healthCheck = (\<lambda>n v. Inr (up v)),
      on_query = (\<lambda>n v k. if up v then Inr (constructor_name v) else Inl (Error ''API Error''))\<rparr>"

text \<open>
  Adapters that are all up, except that the SDN controller goes down after the
  \<open>t\<close>-th adapter call.
\<close>

definition env_odl_until :: "nat \<Rightarrow> (unit, string) adapters" where
  "env_odl_until t =
     \<lparr>on_connect = (\<lambda>n v. Inr ()),
      on_disconnect = (\<lambda>n v. Inr ()),
      on_healthCheck = (\<lambda>n v. Inr (v \<noteq> OpenDaylightController \<or> n < t)),
      on_query = (\<lambda>n v k. Inr (constructor_name v))\<rparr>"


text \<open>
  The scenario of three adapters A, B, C of which C is down throughout: \<open>connect\<close>;
  then A goes down and the timer fires; then B goes down too and the timer fires again.
\<close>

definition env_router_down :: "(unit, string) adapters" where
  "env_router_down = env_health (\<lambda>v. v \<noteq> MikroTikController)"

definition env_only_firewall :: "(unit, string) adapters" where
  "env_only_firewall = env_health (\<lambda>v. v = PfSenseController)"

definition env_all_down :: "(unit, string) adapters" where
  "env_all_down = env_health (\<lambda>v. False)"

definition env_sdn_down :: "(unit, string) adapters" where
  "env_sdn_down = env_health (\<lambda>v. v \<noteq> OpenDaylightController)"

definition scenario_connected :: "unit manager" where
  "scenario_connected = snd (Manager_connect env_router_down (constructor cfg_all))"

definition scenario_failed_over :: "unit manager" where
  "scenario_failed_over = snd (checkAndFailover env_only_firewall scenario_connected)"

definition scenario_all_down :: "unit manager" where
  "scenario_all_down = snd (checkAndFailover env_all_down scenario_failed_over)"

text \<open>
  All backends up, the SDN controller going down after four adapter calls: \<open>connect\<close>,
  a \<open>getDevices\<close>, and then the timer fires.
\<close>

definition served_then_failover :: "unit manager" where
  "served_then_failover = run (env_odl_until 4) cfg_all [EConnect, EQuery GetDevices, ETick]"

text \<open>
  A router that accepts the connection and every command, answering with an empty
  list, except that it lists one interface, which has no address entry; the policy
  of the router adapter's test suite; and firewall responses with one interface whose
  counters are missing or no numbers, and no connection count.
\<close>

definition ros_one_interface :: routeros where
  "ros_one_interface =
     \<lparr>ros_connect = Inr (),
      ros_write = (\<lambda>n command ps.
        if command = ''/interface/print''
        then Inr (JArr [JObj [(''.id'', JStr ''*1''), (''name'', JStr ''ether1''),
                              (''type'', JStr ''ether'')]])
        else Inr (JArr []))\<rparr>"

definition router_connected :: MikroTik where
  "router_connected = snd (MikroTik_connect ros_one_interface MikroTik_constructor)"

definition policy_web :: QoSPolicy where
  "policy_web =
     \<lparr>qos_id = ''qos1'', qos_name = ''High Priority'', targetDevice = ''ether1'',
      bandwidth_min = 10, bandwidth_max = 100, priority = 1,
      protocol = Some ''tcp'', ports = Some [80, 443]\<rparr>"

definition stats_missing :: jsval where
  "stats_missing =
     JObj [(''data'', JObj [(''data'',
       JArr [JObj [(''inbytes'', JUndefined), (''outbytes'', JNull),
                   (''inpkts'', JStr ''n/a'')]])])]"

definition summary_missing :: jsval where
  "summary_missing = JObj [(''data'', JObj [(''total'', JUndefined)])]"

section \<open>The manager: selection\<close>

lemma issue_simps [simp]:
  "controllers (issue c k m) = controllers m"
  "activeController (issue c k m) = activeController m"
  "failoverInterval (issue c k m) = failoverInterval m"
  "calls (issue c k m) = calls m @ [(c, k)]"
  by (simp_all add: issue_def)

lemma connect_loop_fields:
  "controllers (snd (connect_loop env cs es m)) = controllers m \<and>
   activeController (snd (connect_loop env cs es m)) = activeController m \<and>
   failoverInterval (snd (connect_loop env cs es m)) = failoverInterval m \<and>
   calls (snd (connect_loop env cs es m)) = calls m @ map (\<lambda>c. (c, Connect)) cs"
  by (induction cs arbitrary: es m) (auto split: sum.splits)

lemma select_loop_first:
  "j < length cs \<Longrightarrow>
   on_healthCheck env (length (calls m) + j) (cs ! j) = Inr True \<Longrightarrow>
   (\<forall>i<j. on_healthCheck env (length (calls m) + i) (cs ! i) \<noteq> Inr True) \<Longrightarrow>
   select_loop env cs m =
     (Inr (), m\<lparr>activeController := Some (cs ! j),
               calls := calls m @ map (\<lambda>c. (c, HealthCheck)) (take (Suc j) cs)\<rparr>)"
proof (induction cs arbitrary: m j)
  case Nil
  then show ?case by simp
next
  case (Cons c cs)
  show ?case
  proof (cases j)
    case 0
    with Cons.prems show ?thesis by (simp add: issue_def)
  next
    case (Suc j')
    from Cons.prems(3) Suc have c: "on_healthCheck env (length (calls m)) c \<noteq> Inr True"
      by (metis add.right_neutral nth_Cons_0 zero_less_Suc)
    have a: "on_healthCheck env (length (calls (issue c HealthCheck m)) + j') (cs ! j') = Inr True"
      using Cons.prems(2) Suc by simp
    have b: "\<forall>i<j'. on_healthCheck env (length (calls (issue c HealthCheck m)) + i) (cs ! i) \<noteq> Inr True"
    proof (intro allI impI)
      fix i assume "i < j'"
      then have "Suc i < j" using Suc by simp
      with Cons.prems(3) have "on_healthCheck env (length (calls m) + Suc i) ((c # cs) ! Suc i) \<noteq> Inr True"
        by blast
      then show "on_healthCheck env (length (calls (issue c HealthCheck m)) + i) (cs ! i) \<noteq> Inr True"
        by simp
    qed
    from Cons.prems(1) Suc have j': "j' < length cs" by simp
    have step: "select_loop env (c # cs) m = select_loop env cs (issue c HealthCheck m)"
      using c by (auto split: sum.splits)
    show ?thesis
      unfolding step Cons.IH [OF j' a b] using Suc by (simp add: issue_def)
  qed
qed

lemma select_loop_none:
  "(\<forall>i<length cs. on_healthCheck env (length (calls m) + i) (cs ! i) \<noteq> Inr True) \<Longrightarrow>
   select_loop env cs m =
     (Inl (Error ''No healthy controllers available''),
      m\<lparr>calls := calls m @ map (\<lambda>c. (c, HealthCheck)) cs\<rparr>)"
proof (induction cs arbitrary: m)
  case Nil
  then show ?case by simp
next
  case (Cons c cs)
  from Cons.prems have c: "on_healthCheck env (length (calls m)) c \<noteq> Inr True"
    by (metis add.right_neutral length_greater_0_conv list.distinct(1) nth_Cons_0)
  have b: "\<forall>i<length cs. on_healthCheck env (length (calls (issue c HealthCheck m)) + i) (cs ! i) \<noteq> Inr True"
  proof (intro allI impI)
    fix i assume "i < length cs"
    then have "Suc i < length (c # cs)" by simp
    with Cons.prems have "on_healthCheck env (length (calls m) + Suc i) ((c # cs) ! Suc i) \<noteq> Inr True"
      by blast
    then show "on_healthCheck env (length (calls (issue c HealthCheck m)) + i) (cs ! i) \<noteq> Inr True"
      by simp
  qed
  have step: "select_loop env (c # cs) m = select_loop env cs (issue c HealthCheck m)"
    using c by (auto split: sum.splits)
  show ?case unfolding step Cons.IH [OF b] by (simp add: issue_def)
qed

lemma select_loop_fields:
  "controllers (snd (select_loop env cs m)) = controllers m \<and>
   failoverInterval (snd (select_loop env cs m)) = failoverInterval m"
  by (induction cs arbitrary: m) (auto split: sum.splits)

lemma select_loop_active:
  "activeController (snd (select_loop env cs m)) = activeController m \<or>
   (\<exists>c\<in>set cs. activeController (snd (select_loop env cs m)) = Some c)"
proof (induction cs arbitrary: m)
  case Nil
  show ?case by simp
next
  case (Cons c cs)
  show ?case
  proof (cases "on_healthCheck env (length (calls m)) c = Inr True")
    case True
    then show ?thesis by simp
  next
    case False
    then have "select_loop env (c # cs) m = select_loop env cs (issue c HealthCheck m)"
      by (auto split: sum.splits)
    then show ?thesis using Cons.IH [of "issue c HealthCheck m"] by auto
  qed
qed

lemma select_loop_ok:
  "fst (select_loop env cs m) = Inr u \<Longrightarrow>
   \<exists>c\<in>set cs. activeController (snd (select_loop env cs m)) = Some c"
proof (induction cs arbitrary: m)
  case Nil
  then show ?case by simp
next
  case (Cons c cs)
  show ?case
  proof (cases "on_healthCheck env (length (calls m)) c = Inr True")
    case True
    then show ?thesis by simp
  next
    case False
    then have eq: "select_loop env (c # cs) m = select_loop env cs (issue c HealthCheck m)"
      by (auto split: sum.splits)
    with Cons.prems have "fst (select_loop env cs (issue c HealthCheck m)) = Inr u" by simp
    from Cons.IH [OF this] show ?thesis using eq by auto
  qed
qed

lemma select_loop_calls:
  "\<exists>ds. calls (snd (select_loop env cs m)) = calls m @ map (\<lambda>c. (c, HealthCheck)) ds"
proof (induction cs arbitrary: m)
  case Nil
  show ?case by (rule exI [of _ "[]"]) simp
next
  case (Cons c cs)
  obtain ds where ds: "calls (snd (select_loop env cs (issue c HealthCheck m))) =
      calls (issue c HealthCheck m) @ map (\<lambda>c. (c, HealthCheck)) ds"
    using Cons.IH by blast
  show ?case
  proof (cases "on_healthCheck env (length (calls m)) c = Inr True")
    case True
    then show ?thesis by (intro exI [of _ "[c]"]) simp
  next
    case False
    then have "select_loop env (c # cs) m = select_loop env cs (issue c HealthCheck m)"
      by (auto split: sum.splits)
    then show ?thesis using ds by (intro exI [of _ "c # ds"]) simp
  qed
qed

lemma least_index:
  fixes n :: nat
  assumes "\<exists>i<n. P i"
  shows "\<exists>j<n. P j \<and> (\<forall>i<j. \<not> P i)"
proof -
  from assms have "\<exists>i. i < n \<and> P i" by blast
  then obtain j where j: "j < n \<and> P j" and least: "\<forall>i<j. \<not> (i < n \<and> P i)"
    using exists_least_iff [of "\<lambda>i. i < n \<and> P i"] by blast
  have "\<forall>i<j. \<not> P i"
  proof (intro allI impI)
    fix i assume "i < j"
    with least j show "\<not> P i" by (meson less_trans)
  qed
  with j show ?thesis by blast
qed

section \<open>The manager: status report\<close>

lemma status_all_entries:
  "status_all env cs m = (Inr sts, m') \<Longrightarrow>
   map type sts = map constructor_name cs \<and>
   map active sts = map (\<lambda>c. Some c = activeController m) cs"
proof (induction cs arbitrary: m sts m')
  case Nil
  then show ?case by simp
next
  case (Cons c cs)
  obtain r m1 where r: "status_all env cs (issue c HealthCheck m) = (r, m1)"
    by (cases "status_all env cs (issue c HealthCheck m)")
  from Cons.prems r obtain h rest where
    h: "on_healthCheck env (length (calls m)) c = Inr h" and rest: "r = Inr rest" and
    sts: "sts = \<lparr>type = constructor_name c, healthy = h, active = (Some c = activeController m)\<rparr> # rest"
    by (auto split: sum.splits)
  from Cons.IH [of "issue c HealthCheck m" rest m1] r rest
  have "map type rest = map constructor_name cs \<and>
        map active rest = map (\<lambda>c. Some c = activeController m) cs" by simp
  then show ?case using sts by simp
qed

lemma filter_zip_types:
  "length xs = length cs \<Longrightarrow> map type xs = map constructor_name cs \<Longrightarrow>
   map active xs = map P cs \<Longrightarrow>
   map type (filter active xs) = map constructor_name (filter P cs)"
proof (induction xs cs rule: list_induct2)
  case Nil
  then show ?case by simp
next
  case (Cons x xs c cs)
  then show ?case by auto
qed

lemma filter_eq_single:
  "distinct cs \<Longrightarrow> a \<in> set cs \<Longrightarrow> filter (\<lambda>c. Some c = Some a) cs = [a]"
  by (induction cs) (auto simp: filter_empty_conv)

lemma status_one_active:
  assumes "fst (getAllControllersStatus env m) = Inr sts"
    and "distinct (controllers m)" and "activeController m = Some a" and "a \<in> set (controllers m)"
  shows "map type (filter active sts) = [constructor_name a]"
proof -
  obtain m' where s: "status_all env (controllers m) m = (Inr sts, m')"
    using assms(1) unfolding getAllControllersStatus_def
    by (cases "status_all env (controllers m) m") simp
  from status_all_entries [OF s] have
    t: "map type sts = map constructor_name (controllers m)" and
    a: "map active sts = map (\<lambda>c. Some c = activeController m) (controllers m)" by simp_all
  have len: "length sts = length (controllers m)" using t by (metis length_map)
  show ?thesis
    using filter_zip_types [OF len t a] filter_eq_single [OF assms(2) assms(4)] assms(3) by simp
qed

lemma status_none_active:
  assumes "fst (getAllControllersStatus env m) = Inr sts" and "activeController m = None"
  shows "length sts = length (controllers m) \<and> (\<forall>s\<in>set sts. \<not> active s)"
proof -
  obtain m' where s: "status_all env (controllers m) m = (Inr sts, m')"
    using assms(1) unfolding getAllControllersStatus_def
    by (cases "status_all env (controllers m) m") simp
  from status_all_entries [OF s] have
    t: "map type sts = map constructor_name (controllers m)" and
    a: "map active sts = map (\<lambda>c. Some c = activeController m) (controllers m)" by simp_all
  have len: "length sts = length (controllers m)" using t by (metis length_map)
  have "map active sts = map (\<lambda>c. False) (controllers m)" using a assms(2) by simp
  then have "set (map active sts) \<subseteq> {False}" by auto
  then have "\<forall>s\<in>set sts. \<not> active s" by auto
  with len show ?thesis by simp
qed

lemma initializeControllers_distinct: "distinct (initializeControllers cfg)"
  by (simp add: initializeControllers_def)

lemma initializeControllers_order:
  "initializeControllers cfg =
   filter (configured cfg) [OpenDaylightController, PfSenseController, MikroTikController]"
  by (simp add: initializeControllers_def configured_def)


section \<open>The scenarios, evaluated\<close>

lemmas scenario_envs =
  env_all_down_def env_only_firewall_def env_router_down_def env_sdn_down_def env_health_def

lemma constructor_cfg_all:
  "constructor cfg_all =
     \<lparr>controllers = [OpenDaylightController, PfSenseController, MikroTikController],
      activeController = None, failoverInterval = Some 100, calls = []\<rparr>"
  by (simp add: constructor_def initializeControllers_def startFailoverCheck_def cfg_all_def)

lemma scenario_connected_eq:
  "scenario_connected =
     \<lparr>controllers = [OpenDaylightController, PfSenseController, MikroTikController],
      activeController = Some OpenDaylightController,
      failoverInterval = Some 100,
      calls = [(OpenDaylightController, Connect), (PfSenseController, Connect),
               (MikroTikController, Connect), (OpenDaylightController, HealthCheck)]\<rparr>"
  by (simp add: scenario_connected_def Manager_connect_def selectActiveController_def
      constructor_cfg_all scenario_envs issue_def)

lemma scenario_failed_over_eq:
  "scenario_failed_over =
     \<lparr>controllers = [OpenDaylightController, PfSenseController, MikroTikController],
      activeController = Some PfSenseController,
      failoverInterval = Some 100,
      calls = [(OpenDaylightController, Connect), (PfSenseController, Connect),
               (MikroTikController, Connect), (OpenDaylightController, HealthCheck),
               (OpenDaylightController, HealthCheck), (OpenDaylightController, HealthCheck),
               (PfSenseController, HealthCheck)]\<rparr>"
  by (simp add: scenario_failed_over_def scenario_connected_eq checkAndFailover_def
      selectActiveController_def scenario_envs issue_def)

lemma scenario_all_down_eq:
  "scenario_all_down =
     \<lparr>controllers = [OpenDaylightController, PfSenseController, MikroTikController],
      activeController = Some PfSenseController,
      failoverInterval = Some 100,
      calls = [(OpenDaylightController, Connect), (PfSenseController, Connect),
               (MikroTikController, Connect), (OpenDaylightController, HealthCheck),
               (OpenDaylightController, HealthCheck), (OpenDaylightController, HealthCheck),
               (PfSenseController, HealthCheck),
               (PfSenseController, HealthCheck),
               (OpenDaylightController, HealthCheck), (PfSenseController, HealthCheck),
               (MikroTikController, HealthCheck),
               (OpenDaylightController, HealthCheck), (PfSenseController, HealthCheck),
               (MikroTikController, HealthCheck)]\<rparr>"
  by (simp add: scenario_all_down_def scenario_failed_over_eq checkAndFailover_def
      selectActiveController_def scenario_envs issue_def)

lemma run_connect_eq:
  "run (env_odl_until 4) cfg_all [EConnect] =
     (\<lparr>controllers = [OpenDaylightController, PfSenseController, MikroTikController],
       activeController = Some OpenDaylightController,
       failoverInterval = Some 100,
       calls = [(OpenDaylightController, Connect), (PfSenseController, Connect),
                (MikroTikController, Connect), (OpenDaylightController, HealthCheck)]\<rparr>
      :: unit manager)"
  by (simp add: run_def Manager_connect_def selectActiveController_def constructor_cfg_all
      env_odl_until_def issue_def)

lemma served_then_failover_eq:
  "served_then_failover =
     \<lparr>controllers = [OpenDaylightController, PfSenseController, MikroTikController],
      activeController = Some PfSenseController,
      failoverInterval = Some 100,
      calls = [(OpenDaylightController, Connect), (PfSenseController, Connect),
               (MikroTikController, Connect), (OpenDaylightController, HealthCheck),
               (OpenDaylightController, GetDevices),
               (OpenDaylightController, HealthCheck), (OpenDaylightController, HealthCheck),
               (PfSenseController, HealthCheck)]\<rparr>"
  by (simp add: served_then_failover_def run_def Manager_connect_def selectActiveController_def
      constructor_cfg_all env_odl_until_def issue_def delegate_def ensureActiveController_def
      checkAndFailover_def)

lemma router_connected_eq: "router_connected = \<lparr>client = True, written = []\<rparr>"
  by (simp add: router_connected_def MikroTik_connect_def MikroTik_constructor_def
      ros_one_interface_def)

section \<open>Executions: what every reachable manager satisfies\<close>

lemma Manager_connect_snd:
  "snd (Manager_connect env m) =
   snd (select_loop env (controllers m) (snd (connect_loop env (controllers m) [] m)))"
proof -
  obtain errors m1 where cl: "connect_loop env (controllers m) [] m = (errors, m1)"
    by (cases "connect_loop env (controllers m) [] m")
  from connect_loop_fields [of env "controllers m" "[]" m] cl
  have c: "controllers m1 = controllers m" by simp
  obtain r m2 where sl: "select_loop env (controllers m) m1 = (r, m2)"
    by (cases "select_loop env (controllers m) m1")
  show ?thesis
    unfolding Manager_connect_def selectActiveController_def cl using sl c
    by (cases r) (simp_all split: if_splits)
qed

lemma checkAndFailover_snd:
  "snd (checkAndFailover env m) = issue (the (activeController m)) HealthCheck m \<or>
   snd (checkAndFailover env m) = snd (select_loop env (controllers m) m) \<or>
   snd (checkAndFailover env m) =
     snd (select_loop env (controllers m) (issue (the (activeController m)) HealthCheck m)) \<or>
   snd (checkAndFailover env m) =
     snd (select_loop env (controllers m)
       (snd (select_loop env (controllers m) (issue (the (activeController m)) HealthCheck m))))"
proof (cases "activeController m")
  case None
  then show ?thesis by (simp add: checkAndFailover_def selectActiveController_def)
next
  case (Some a)
  let ?mi = "issue a HealthCheck m"
  obtain r m1 where s1: "select_loop env (controllers m) ?mi = (r, m1)"
    by (cases "select_loop env (controllers m) ?mi")
  from select_loop_fields [of env "controllers m" ?mi] s1
  have c1: "controllers m1 = controllers m" by simp
  show ?thesis
  proof (cases "on_healthCheck env (length (calls m)) a")
    case (Inl e)
    then show ?thesis using Some by (simp add: checkAndFailover_def selectActiveController_def)
  next
    case (Inr h)
    then show ?thesis using Some s1 c1
      by (cases r) (simp_all add: checkAndFailover_def selectActiveController_def)
  qed
qed

lemma step_invariant:
  assumes "controllers m = cs" and "\<forall>a. activeController m = Some a \<longrightarrow> a \<in> set cs"
  shows "controllers (step env m ev) = cs \<and>
         (\<forall>a. activeController (step env m ev) = Some a \<longrightarrow> a \<in> set cs)"
proof -
  have sel: "\<And>m0. controllers m0 = cs \<Longrightarrow> \<forall>a. activeController m0 = Some a \<longrightarrow> a \<in> set cs \<Longrightarrow>
      controllers (snd (select_loop env cs m0)) = cs \<and>
      (\<forall>a. activeController (snd (select_loop env cs m0)) = Some a \<longrightarrow> a \<in> set cs)"
    using select_loop_fields select_loop_active by (metis option.inject)
  show ?thesis
  proof (cases ev)
    case EConnect
    let ?m1 = "snd (connect_loop env cs [] m)"
    from connect_loop_fields [of env cs "[]" m] assms
    have "controllers ?m1 = cs" "\<forall>a. activeController ?m1 = Some a \<longrightarrow> a \<in> set cs" by simp_all
    from sel [OF this] show ?thesis using EConnect assms(1) by (simp add: Manager_connect_snd)
  next
    case ETick
    let ?mi = "issue (the (activeController m)) HealthCheck m"
    let ?m1 = "snd (select_loop env cs ?mi)"
    have i: "controllers ?mi = cs" "\<forall>a. activeController ?mi = Some a \<longrightarrow> a \<in> set cs"
      using assms by simp_all
    from sel [OF i] have i1: "controllers ?m1 = cs" "\<forall>a. activeController ?m1 = Some a \<longrightarrow> a \<in> set cs"
      by simp_all
    from checkAndFailover_snd [of env m] sel [OF assms] sel [OF i] sel [OF i1] i assms(1)
    show ?thesis using ETick by auto
  next
    case (EQuery k)
    then show ?thesis using assms
      by (auto simp: delegate_def ensureActiveController_def split: option.splits)
  qed
qed

lemma run_snoc: "run env cfg (events @ [ev]) = step env (run env cfg events) ev"
  by (simp add: run_def)

lemma run_invariant:
  "controllers (run env cfg events) = initializeControllers cfg \<and>
   (\<forall>a. activeController (run env cfg events) = Some a \<longrightarrow> a \<in> set (initializeControllers cfg))"
proof (induction events rule: rev_induct)
  case Nil
  show ?case by (simp add: run_def constructor_def)
next
  case (snoc ev events)
  then show ?case unfolding run_snoc using step_invariant by blast
qed

lemma last_served_snoc:
  "is_delegated k \<Longrightarrow> last_served (cs @ [(a, k)]) = Some a"
  by (simp add: last_served_def)


section \<open>Claims about the manager\<close>

text \<open>
  Claim C1. Let the adapter set be the one built from the configuration, and let some
  adapter answer its health check with true when \<open>connect\<close> asks it (the checks follow
  the \<open>connect\<close> calls, one for each adapter). Then \<open>connect\<close> succeeds and the active
  adapter is the first of the list that answered true: the status report has exactly
  one active entry, of that adapter's type. The list holds the configured adapters in
  the order SDN controller, firewall, router.
\<close>

theorem C1_connect_selects_first_healthy:
  fixes env :: "('p, 'v) adapters" and m :: "'p manager"
  assumes "controllers m = initializeControllers cfg"
    and "\<exists>i<length (controllers m).
           on_healthCheck env (length (calls m) + length (controllers m) + i) (controllers m ! i) = Inr True"
  shows "\<exists>j<length (controllers m).
           on_healthCheck env (length (calls m) + length (controllers m) + j) (controllers m ! j) = Inr True \<and>
           (\<forall>i<j. on_healthCheck env (length (calls m) + length (controllers m) + i) (controllers m ! i) \<noteq> Inr True) \<and>
           fst (Manager_connect env m) = Inr () \<and>
           activeController (snd (Manager_connect env m)) = Some (controllers m ! j) \<and>
           getActiveControllerType (snd (Manager_connect env m)) = constructor_name (controllers m ! j) \<and>
           (\<forall>env' sts. fst (getAllControllersStatus (env' :: ('p, 'v) adapters) (snd (Manager_connect env m))) = Inr sts \<longrightarrow>
              map type (filter active sts) = [constructor_name (controllers m ! j)]) \<and>
           controllers m =
             filter (configured cfg) [OpenDaylightController, PfSenseController, MikroTikController]"
proof -
  let ?cs = "controllers m"
  let ?n = "length (calls m) + length ?cs"
  obtain errors m1 where cl: "connect_loop env ?cs [] m = (errors, m1)"
    by (cases "connect_loop env ?cs [] m")
  from connect_loop_fields [of env ?cs "[]" m] cl have
    m1: "controllers m1 = ?cs" "activeController m1 = activeController m"
        "length (calls m1) = ?n" by simp_all
  from least_index [OF assms(2)] obtain j where
    j: "j < length ?cs" and
    hj: "on_healthCheck env (?n + j) (?cs ! j) = Inr True" and
    lj: "\<forall>i<j. on_healthCheck env (?n + i) (?cs ! i) \<noteq> Inr True" by blast
  have sel: "select_loop env ?cs m1 =
      (Inr (), m1\<lparr>activeController := Some (?cs ! j),
                 calls := calls m1 @ map (\<lambda>c. (c, HealthCheck)) (take (Suc j) ?cs)\<rparr>)"
    using select_loop_first [of j ?cs env m1] j hj lj m1(3) by simp
  have res: "Manager_connect env m =
      (Inr (), m1\<lparr>activeController := Some (?cs ! j),
                 calls := calls m1 @ map (\<lambda>c. (c, HealthCheck)) (take (Suc j) ?cs)\<rparr>)"
    unfolding Manager_connect_def selectActiveController_def cl using sel m1(1) by simp
  have act: "activeController (snd (Manager_connect env m)) = Some (?cs ! j)"
    and ctl: "controllers (snd (Manager_connect env m)) = ?cs"
    using res m1(1) by simp_all
  have dist: "distinct (controllers (snd (Manager_connect env m)))"
    using ctl assms(1) initializeControllers_distinct by simp
  have mem: "?cs ! j \<in> set (controllers (snd (Manager_connect env m)))"
    using ctl j by simp
  have st: "\<forall>env' sts. fst (getAllControllersStatus (env' :: ('p, 'v) adapters) (snd (Manager_connect env m))) = Inr sts \<longrightarrow>
              map type (filter active sts) = [constructor_name (?cs ! j)]"
    using status_one_active [OF _ dist act mem] by blast
  have ty: "getActiveControllerType (snd (Manager_connect env m)) = constructor_name (?cs ! j)"
    using act by (simp add: getActiveControllerType_def)
  have ord: "?cs = filter (configured cfg) [OpenDaylightController, PfSenseController, MikroTikController]"
    using assms(1) initializeControllers_order by simp
  from j hj lj res act st ty ord show ?thesis by (intro exI [of _ j]) simp
qed

theorem C1_witness:
  "controllers (constructor cfg_all :: unit manager) = initializeControllers cfg_all \<and>
   on_healthCheck env_sdn_down 4 PfSenseController = Inr True \<and>
   fst (Manager_connect env_sdn_down (constructor cfg_all)) = Inr () \<and>
   activeController (snd (Manager_connect env_sdn_down
      (constructor cfg_all))) = Some PfSenseController"
proof -
  let ?env = env_sdn_down
  let ?m = "constructor cfg_all :: unit manager"
  have h1: "controllers ?m = initializeControllers cfg_all"
    by (simp add: constructor_def)
  have cs: "controllers ?m = [OpenDaylightController, PfSenseController, MikroTikController]"
    by (simp add: constructor_cfg_all)
  have h2: "\<exists>i<length (controllers ?m).
      on_healthCheck ?env (length (calls ?m) + length (controllers ?m) + i) (controllers ?m ! i) = Inr True"
    unfolding cs by (rule exI [of _ 1]) (simp add: scenario_envs)
  from C1_connect_selects_first_healthy [OF h1 h2]
  have ok: "fst (Manager_connect ?env ?m) = Inr ()" by blast
  have act: "activeController (snd (Manager_connect ?env ?m)) = Some PfSenseController"
    by (simp add: Manager_connect_def selectActiveController_def constructor_cfg_all
        scenario_envs issue_def)
  have hc: "on_healthCheck ?env 4 PfSenseController = Inr True"
    by (simp add: scenario_envs)
  from h1 hc ok act show ?thesis by simp
qed

text \<open>
  Claim C2 as stated fails on the scenario A, B healthy and C not: \<open>connect\<close> makes A
  active, the tick after A went down makes B active, and the tick after B went down as
  well leaves B active. A query is then delegated to B and fails with B's own error,
  and the status report still shows B as active.
\<close>

theorem C2_stale_active_counterexample:
  "activeController scenario_connected = Some OpenDaylightController \<and>
   activeController scenario_failed_over = Some PfSenseController \<and>
   on_healthCheck env_all_down (length (calls scenario_failed_over)) PfSenseController =
     Inr False \<and>
   activeController scenario_all_down = Some PfSenseController \<and>
   fst (Manager_getDevices env_all_down scenario_all_down) =
     Inl (Error ''API Error'') \<and>
   fst (getAllControllersStatus env_all_down scenario_all_down) =
     Inr [\<lparr>type = ''OpenDaylightController'', healthy = False, active = False\<rparr>,
          \<lparr>type = ''PfSenseController'', healthy = False, active = True\<rparr>,
          \<lparr>type = ''MikroTikController'', healthy = False, active = False\<rparr>]"
  by (simp add: scenario_connected_eq scenario_failed_over_eq scenario_all_down_eq
      Manager_getDevices_def delegate_def ensureActiveController_def
      getAllControllersStatus_def scenario_envs issue_def)

text \<open>
  Claim C2, amended. When no adapter is active and every configured adapter reports
  unhealthy whenever it is asked, a timer tick or \<open>connect\<close> leaves no adapter active;
  then each delegated call (\<open>getDevices\<close>, \<open>getFlows\<close>, \<open>getStats\<close>,
  \<open>applyQoSPolicy\<close>, \<open>healthCheck\<close>) raises \<open>No active controller available\<close> and
  leaves the manager as it is, calling no adapter, and the status report has one entry
  for each adapter, all with \<open>active = false\<close>.
\<close>

theorem C2_all_unhealthy_without_active:
  fixes env :: "('p, 'v) adapters" and m :: "'p manager"
  assumes "activeController m = None"
    and "\<forall>n. \<forall>c\<in>set (controllers m). on_healthCheck env n c \<noteq> Inr True"
    and "m' = snd (checkAndFailover env m) \<or> m' = snd (Manager_connect env m)"
  shows "activeController m' = None \<and>
         Manager_getDevices env' m' = (Inl (Error ''No active controller available''), m') \<and>
         Manager_getFlows env' m' = (Inl (Error ''No active controller available''), m') \<and>
         Manager_getStats env' m' = (Inl (Error ''No active controller available''), m') \<and>
         Manager_applyQoSPolicy env' policy m' = (Inl (Error ''No active controller available''), m') \<and>
         Manager_healthCheck env' m' = (Inl (Error ''No active controller available''), m') \<and>
         getActiveControllerType m' = ''None'' \<and>
         (\<forall>sts. fst (getAllControllersStatus env' m') = Inr sts \<longrightarrow>
            length sts = length (controllers m) \<and> (\<forall>s\<in>set sts. \<not> active s))"
proof -
  have none: "\<And>m0 :: 'p manager. controllers m0 = controllers m \<Longrightarrow>
      select_loop env (controllers m) m0 =
        (Inl (Error ''No healthy controllers available''),
         m0\<lparr>calls := calls m0 @ map (\<lambda>c. (c, HealthCheck)) (controllers m)\<rparr>)"
    using assms(2) by (intro select_loop_none) simp
  have tick: "snd (checkAndFailover env m) =
      m\<lparr>calls := calls m @ map (\<lambda>c. (c, HealthCheck)) (controllers m)\<rparr>"
    using assms(1) none [of m] by (simp add: checkAndFailover_def selectActiveController_def)
  obtain errors m1 where cl: "connect_loop env (controllers m) [] m = (errors, m1)"
    by (cases "connect_loop env (controllers m) [] m")
  from connect_loop_fields [of env "controllers m" "[]" m] cl have
    m1: "controllers m1 = controllers m" "activeController m1 = activeController m" by simp_all
  have conn: "snd (Manager_connect env m) =
      m1\<lparr>calls := calls m1 @ map (\<lambda>c. (c, HealthCheck)) (controllers m)\<rparr>"
    unfolding Manager_connect_def selectActiveController_def cl using none [OF m1(1)] m1(1) by simp
  from assms(3) tick conn m1 assms(1) have
    a: "activeController m' = None" and c: "controllers m' = controllers m" by auto
  from a have q: "\<And>k. delegate env' k m' = (Inl (Error ''No active controller available''), m')"
    by (simp add: delegate_def ensureActiveController_def)
  from a have h: "Manager_healthCheck env' m' = (Inl (Error ''No active controller available''), m')"
    by (simp add: Manager_healthCheck_def ensureActiveController_def)
  from a have t: "getActiveControllerType m' = ''None''"
    by (simp add: getActiveControllerType_def)
  have s: "\<forall>sts. fst (getAllControllersStatus env' m') = Inr sts \<longrightarrow>
            length sts = length (controllers m) \<and> (\<forall>s\<in>set sts. \<not> active s)"
    using status_none_active [OF _ a, of env'] c by simp
  from a q h t s show ?thesis
    by (simp add: Manager_getDevices_def Manager_getFlows_def Manager_getStats_def
        Manager_applyQoSPolicy_def)
qed



theorem C2_all_unhealthy_without_active_witness:
  "activeController (constructor cfg_all :: unit manager) = None \<and>
   on_healthCheck env_all_down 0 OpenDaylightController = Inr False \<and>
   activeController (snd (checkAndFailover env_all_down
      (constructor cfg_all :: unit manager))) = None \<and>
   fst (Manager_getDevices env_all_down
      (snd (checkAndFailover env_all_down (constructor cfg_all :: unit manager)))) =
     Inl (Error ''No active controller available'')"
proof -
  let ?env = env_all_down
  let ?m = "constructor cfg_all :: unit manager"
  have h1: "activeController ?m = None" by (simp add: constructor_def)
  have h2: "\<forall>n. \<forall>c\<in>set (controllers ?m). on_healthCheck ?env n c \<noteq> Inr True"
    by (simp add: scenario_envs)
  have h3: "snd (checkAndFailover ?env ?m) = snd (checkAndFailover ?env ?m) \<or>
            snd (checkAndFailover ?env ?m) = snd (Manager_connect ?env ?m)" by simp
  have hc: "on_healthCheck ?env 0 OpenDaylightController = Inr False"
    by (simp add: scenario_envs)
  from C2_all_unhealthy_without_active [OF h1 h2 h3, of ?env "()"] h1 hc
  show ?thesis by simp
qed

text \<open>
  Claim C3. Every adapter refuses the connection with \<open>Connection failed\<close> and is
  unhealthy. The failures are collected, but \<open>connect\<close> ends in the error of the failed
  selection, which names none of them; the error that joins the collected messages is
  not the one raised.
\<close>

theorem C3_connect_error_not_aggregated:
  "fst (connect_loop env_all_down (controllers (constructor cfg_all :: unit manager)) []
         (constructor cfg_all)) =
     [Error ''Connection failed'', Error ''Connection failed'', Error ''Connection failed''] \<and>
   fst (Manager_connect env_all_down (constructor cfg_all :: unit manager)) =
     Inl (Error ''No healthy controllers available'') \<and>
   fst (Manager_connect env_all_down (constructor cfg_all :: unit manager)) \<noteq>
     Inl (Error ''Failed to connect to any controllers: Connection failed, Connection failed, Connection failed'')"
  by (simp add: Manager_connect_def selectActiveController_def constructor_cfg_all
      scenario_envs issue_def)

text \<open>
  The last \<open>throw\<close> of \<open>connect\<close> is never reached: a selection that returns has
  assigned the active adapter, so \<open>connect\<close> either succeeds or fails with the
  selection's error.
\<close>

lemma Manager_connect_outcomes:
  "fst (Manager_connect env m) = Inr () \<or>
   fst (Manager_connect env m) = Inl (Error ''No healthy controllers available'')"
proof -
  obtain errors m1 where cl: "connect_loop env (controllers m) [] m = (errors, m1)"
    by (cases "connect_loop env (controllers m) [] m")
  obtain r m2 where sl: "select_loop env (controllers m1) m1 = (r, m2)"
    by (cases "select_loop env (controllers m1) m1")
  show ?thesis
  proof (cases r)
    case (Inl e)
    have err: "\<And>cs m0 e0. fst (select_loop env cs m0) = Inl e0 \<Longrightarrow>
        e0 = Error ''No healthy controllers available''"
    proof -
      fix cs :: "vendor list" and m0 :: "'a manager" and e0
      show "fst (select_loop env cs m0) = Inl e0 \<Longrightarrow> e0 = Error ''No healthy controllers available''"
        by (induction cs arbitrary: m0) (auto split: sum.splits if_splits)
    qed
    from err [of "controllers m1" m1 e] sl Inl
    have "e = Error ''No healthy controllers available''" by simp
    then show ?thesis
      unfolding Manager_connect_def selectActiveController_def cl using sl Inl by simp
  next
    case (Inr u)
    from select_loop_ok [of env "controllers m1" m1 u] sl Inr
    have "activeController m2 \<noteq> None" by auto
    then show ?thesis
      unfolding Manager_connect_def selectActiveController_def cl using sl Inr by simp
  qed
qed

text \<open>
  Claim C5. When the active adapter rejects a delegated call, the manager's call is
  rejected with the same error, the adapter has been called once, and the manager's
  fields are as before: the same adapter is active. No delegated call, failed or not,
  changes the active adapter.
\<close>

theorem C5_delegated_failure_propagates:
  fixes env :: "('p, 'v) adapters" and m :: "'p manager"
  assumes "activeController m = Some a"
  shows "(on_query env (length (calls m)) a GetDevices = Inl e \<longrightarrow>
            Manager_getDevices env m = (Inl e, m\<lparr>calls := calls m @ [(a, GetDevices)]\<rparr>)) \<and>
         (on_query env (length (calls m)) a GetFlows = Inl e \<longrightarrow>
            Manager_getFlows env m = (Inl e, m\<lparr>calls := calls m @ [(a, GetFlows)]\<rparr>)) \<and>
         (on_query env (length (calls m)) a GetStats = Inl e \<longrightarrow>
            Manager_getStats env m = (Inl e, m\<lparr>calls := calls m @ [(a, GetStats)]\<rparr>)) \<and>
         (on_query env (length (calls m)) a (ApplyQoSPolicy policy) = Inl e \<longrightarrow>
            Manager_applyQoSPolicy env policy m =
              (Inl e, m\<lparr>calls := calls m @ [(a, ApplyQoSPolicy policy)]\<rparr>)) \<and>
         activeController (snd (Manager_getDevices env m)) = Some a \<and>
         activeController (snd (Manager_getFlows env m)) = Some a \<and>
         activeController (snd (Manager_getStats env m)) = Some a \<and>
         activeController (snd (Manager_applyQoSPolicy env policy m)) = Some a"
  using assms
  by (simp add: Manager_getDevices_def Manager_getFlows_def Manager_getStats_def
      Manager_applyQoSPolicy_def delegate_def ensureActiveController_def issue_def)

theorem C5_delegated_failure_propagates_witness:
  "activeController scenario_all_down = Some PfSenseController \<and>
   on_query env_all_down (length (calls scenario_all_down)) PfSenseController GetDevices =
     Inl (Error ''API Error'') \<and>
   Manager_getDevices env_all_down scenario_all_down =
     (Inl (Error ''API Error''),
      scenario_all_down\<lparr>calls := calls scenario_all_down @ [(PfSenseController, GetDevices)]\<rparr>)"
proof -
  have h: "activeController scenario_all_down = Some PfSenseController"
    by (simp add: scenario_all_down_eq)
  have q: "on_query env_all_down (length (calls scenario_all_down))
      PfSenseController GetDevices = Inl (Error ''API Error'')"
    by (simp add: scenario_envs)
  from C5_delegated_failure_propagates [OF h, of env_all_down "Error ''API Error''"] h q
  show ?thesis by simp
qed

text \<open>
  Claim C9 as stated fails on \<open>connect\<close>, a \<open>getDevices\<close> that the SDN controller
  serves, and a tick that finds the SDN controller down: the status report and the
  active type name the firewall, and the most recent delegated call was served by the
  SDN controller.
\<close>

theorem C9_status_after_failover_counterexample:
  "fst (delegate (env_odl_until 4) GetDevices (run (env_odl_until 4) cfg_all [EConnect] :: unit manager)) =
     Inr ''OpenDaylightController'' \<and>
   last_served (calls served_then_failover) = Some OpenDaylightController \<and>
   getActiveControllerType served_then_failover = ''PfSenseController'' \<and>
   fst (getAllControllersStatus (env_odl_until 4) served_then_failover) =
     Inr [\<lparr>type = ''OpenDaylightController'', healthy = False, active = False\<rparr>,
          \<lparr>type = ''PfSenseController'', healthy = True, active = True\<rparr>,
          \<lparr>type = ''MikroTikController'', healthy = True, active = False\<rparr>]"
  unfolding run_connect_eq served_then_failover_eq
  by (simp add: delegate_def ensureActiveController_def last_served_def
      getActiveControllerType_def getAllControllersStatus_def env_odl_until_def issue_def)

text \<open>
  Claim C9, amended. In every execution (any sequence of \<open>connect\<close>, timer ticks and
  delegated calls after construction), when a delegated call is served, it is served by
  the adapter that is active at that moment, and right after the call the status
  introspection names that adapter: \<open>getActiveControllerType\<close> is its class name and the
  status report has exactly one active entry, of that type. The name is a function of
  the adapter's class.
\<close>

theorem C9_status_names_serving_adapter:
  fixes env :: "('p, 'v) adapters"
  assumes "activeController (run env cfg events) = Some a" and "is_delegated k"
  shows "fst (delegate env k (run env cfg events)) =
           on_query env (length (calls (run env cfg events))) a k \<and>
         last_served (calls (run env cfg (events @ [EQuery k]))) = Some a \<and>
         getActiveControllerType (run env cfg (events @ [EQuery k])) = constructor_name a \<and>
         (\<forall>env' sts. fst (getAllControllersStatus (env' :: ('p, 'v) adapters)
                            (run env cfg (events @ [EQuery k]))) = Inr sts \<longrightarrow>
            map type (filter active sts) = [constructor_name a])"
proof -
  let ?m = "run env cfg events"
  let ?m' = "run env cfg (events @ [EQuery k])"
  have d: "delegate env k ?m = (on_query env (length (calls ?m)) a k, issue a k ?m)"
    using assms(1) by (simp add: delegate_def ensureActiveController_def)
  have m': "?m' = issue a k ?m" unfolding run_snoc using d by simp
  have act: "activeController ?m' = Some a" using m' assms(1) by simp
  have ls: "last_served (calls ?m') = Some a"
    using m' last_served_snoc [OF assms(2)] by simp
  from run_invariant [of env cfg "events @ [EQuery k]"] act have
    ctl: "controllers ?m' = initializeControllers cfg" and mem: "a \<in> set (controllers ?m')"
    by simp_all
  have dist: "distinct (controllers ?m')" using ctl initializeControllers_distinct by simp
  have st: "\<forall>env' sts. fst (getAllControllersStatus (env' :: ('p, 'v) adapters) ?m') = Inr sts \<longrightarrow>
      map type (filter active sts) = [constructor_name a]"
    using status_one_active [OF _ dist act mem] by blast
  have ty: "getActiveControllerType ?m' = constructor_name a"
    using act by (simp add: getActiveControllerType_def)
  from d ls ty st show ?thesis by simp
qed

theorem C9_status_names_serving_adapter_witness:
  "activeController (run (env_odl_until 4) cfg_all [EConnect] :: unit manager) =
     Some OpenDaylightController \<and>
   is_delegated (GetDevices :: unit call) \<and>
   last_served (calls (run (env_odl_until 4) cfg_all [EConnect, EQuery GetDevices] :: unit manager)) =
     Some OpenDaylightController \<and>
   getActiveControllerType (run (env_odl_until 4) cfg_all [EConnect, EQuery GetDevices] :: unit manager) =
     ''OpenDaylightController''"
proof -
  have h1: "activeController (run (env_odl_until 4) cfg_all [EConnect] :: unit manager) =
      Some OpenDaylightController"
    by (simp add: run_connect_eq)
  have h2: "is_delegated (GetDevices :: unit call)" by simp
  from C9_status_names_serving_adapter [OF h1 h2] h1 h2 show ?thesis by simp
qed

text \<open>
  Claim C10. The constructor starts the timer and leaves no adapter active. When the
  timer fires on the freshly constructed manager and some adapter answers its health
  check with true, the tick succeeds and makes one of the configured adapters active;
  no \<open>connect\<close> has been called on any adapter, and a delegated query is then answered
  by that adapter. The health checks of the two REST adapters are a request on their
  own, which \<open>connect\<close> does not prepare: they answer true as soon as the request is
  answered.
\<close>

theorem C10_tick_before_connect_selects:
  fixes env :: "('p, 'v) adapters"
  assumes "\<exists>i<length (initializeControllers cfg).
             on_healthCheck env i (initializeControllers cfg ! i) = Inr True"
  shows "failoverInterval (constructor cfg :: 'p manager) = Some (startFailoverCheck cfg) \<and>
         activeController (constructor cfg :: 'p manager) = None \<and>
         calls (constructor cfg :: 'p manager) = [] \<and>
         fst (checkAndFailover env (constructor cfg)) = Inr () \<and>
         (\<exists>a\<in>set (initializeControllers cfg).
            activeController (snd (checkAndFailover env (constructor cfg))) = Some a \<and>
            Connect \<notin> snd ` set (calls (snd (checkAndFailover env (constructor cfg)))) \<and>
            fst (Manager_getDevices env (snd (checkAndFailover env (constructor cfg)))) =
              on_query env (length (calls (snd (checkAndFailover env (constructor cfg))))) a GetDevices) \<and>
         PfSense_healthCheck (Inr response) = Inr True \<and>
         OpenDaylight_healthCheck (Inr response) = Inr True"
proof -
  let ?cs = "initializeControllers cfg"
  let ?m = "constructor cfg :: 'p manager"
  have c: "controllers ?m = ?cs" "activeController ?m = None" "calls ?m = []"
    "failoverInterval ?m = Some (startFailoverCheck cfg)"
    by (simp_all add: constructor_def)
  from least_index [OF assms] obtain j where
    j: "j < length ?cs" and
    hj: "on_healthCheck env j (?cs ! j) = Inr True" and
    lj: "\<forall>i<j. on_healthCheck env i (?cs ! i) \<noteq> Inr True" by blast
  have sel: "select_loop env ?cs ?m =
      (Inr (), ?m\<lparr>activeController := Some (?cs ! j),
                 calls := calls ?m @ map (\<lambda>c. (c, HealthCheck)) (take (Suc j) ?cs)\<rparr>)"
    using select_loop_first [of j ?cs env ?m] j hj lj c(3) by simp
  have tick: "checkAndFailover env ?m =
      (Inr (), ?m\<lparr>activeController := Some (?cs ! j),
                 calls := map (\<lambda>c. (c, HealthCheck)) (take (Suc j) ?cs)\<rparr>)"
    using sel c by (simp add: checkAndFailover_def selectActiveController_def)
  let ?m' = "snd (checkAndFailover env ?m)"
  have act: "activeController ?m' = Some (?cs ! j)" using tick by simp
  have cl: "calls ?m' = map (\<lambda>c. (c, HealthCheck)) (take (Suc j) ?cs)" using tick by simp
  have nc: "Connect \<notin> snd ` set (calls ?m')" unfolding cl by auto
  have q: "fst (Manager_getDevices env ?m') = on_query env (length (calls ?m')) (?cs ! j) GetDevices"
    using act by (simp add: Manager_getDevices_def delegate_def ensureActiveController_def)
  have mem: "?cs ! j \<in> set ?cs" using j by simp
  have rest: "PfSense_healthCheck (Inr response) = Inr True"
    "OpenDaylight_healthCheck (Inr response) = Inr True"
    by (simp_all add: PfSense_healthCheck_def OpenDaylight_healthCheck_def)
  from c tick act nc q mem rest show ?thesis by (intro conjI bexI [of _ "?cs ! j"]) simp_all
qed

theorem C10_tick_before_connect_selects_witness:
  "on_healthCheck env_only_firewall 1 (initializeControllers cfg_all ! 1) = Inr True \<and>
   activeController (constructor cfg_all :: unit manager) = None \<and>
   fst (checkAndFailover env_only_firewall (constructor cfg_all :: unit manager)) =
     Inr () \<and>
   activeController (snd (checkAndFailover env_only_firewall
     (constructor cfg_all :: unit manager))) = Some PfSenseController \<and>
   fst (Manager_getDevices env_only_firewall
     (snd (checkAndFailover env_only_firewall
       (constructor cfg_all :: unit manager)))) = Inr ''PfSenseController''"
proof -
  let ?env = env_only_firewall
  have cs: "initializeControllers cfg_all =
      [OpenDaylightController, PfSenseController, MikroTikController]"
    by (simp add: initializeControllers_def cfg_all_def)
  have hc: "on_healthCheck ?env 1 (initializeControllers cfg_all ! 1) = Inr True"
    unfolding cs by (simp add: scenario_envs)
  have h: "\<exists>i<length (initializeControllers cfg_all).
      on_healthCheck ?env i (initializeControllers cfg_all ! i) = Inr True"
    using hc unfolding cs by (intro exI [of _ 1]) simp
  from C10_tick_before_connect_selects [OF h]
  have ok: "fst (checkAndFailover ?env (constructor cfg_all :: unit manager)) = Inr ()"
    and none: "activeController (constructor cfg_all :: unit manager) = None" by simp_all
  have act: "activeController (snd (checkAndFailover ?env (constructor cfg_all :: unit manager))) =
      Some PfSenseController"
    by (simp add: checkAndFailover_def selectActiveController_def constructor_cfg_all
        scenario_envs issue_def)
  have q: "fst (Manager_getDevices ?env
      (snd (checkAndFailover ?env (constructor cfg_all :: unit manager)))) = Inr ''PfSenseController''"
    by (simp add: checkAndFailover_def selectActiveController_def constructor_cfg_all
        scenario_envs issue_def Manager_getDevices_def delegate_def ensureActiveController_def)
  from hc none ok act q show ?thesis by simp
qed

section \<open>Claims about the adapters\<close>

lemma parseInt_or_0_unparsable: "parseInt v = None \<Longrightarrow> parseInt_or_0 v = 0"
  by (simp add: parseInt_or_0_def)

lemma parseInt_missing: "parseInt JUndefined = None" "parseInt JNull = None"
  by (simp_all add: parseInt_def parseInt_string_def digit_val_def is_space_def)

lemma pfsense_forEach_unparsable:
  "\<forall>iface\<in>set xs. \<not> nullish iface \<and>
       parseInt (field iface ''inbytes'') = None \<and> parseInt (field iface ''outbytes'') = None \<and>
       parseInt (field iface ''inpkts'') = None \<and> parseInt (field iface ''outpkts'') = None \<Longrightarrow>
   pfsense_forEach xs stats = Inr stats"
  by (induction xs) (simp_all add: pfsense_add_iface_def parseInt_or_0_unparsable)

text \<open>
  Claim C7. Both requests of the firewall adapter's \<open>getStats\<close> are answered, with an
  interface list and a summary of the usual shape. When, for each interface, each
  of the four counters is missing or does not parse as a number, and the
  connection count is missing (or otherwise falsy), the result is the statistics with
  all five numbers 0, and not an error.
\<close>

theorem C7_getStats_missing_counters:
  assumes "property interfaceStats ''data'' = Inr d"
    and "property d ''data'' = Inr (JArr ifaces)"
    and "property states ''data'' = Inr sd"
    and "property sd ''total'' = Inr count"
    and "\<not> truthy count"
    and "\<forall>iface\<in>set ifaces. \<not> nullish iface \<and>
           parseInt (field iface ''inbytes'') = None \<and> parseInt (field iface ''outbytes'') = None \<and>
           parseInt (field iface ''inpkts'') = None \<and> parseInt (field iface ''outpkts'') = None"
  shows "PfSense_getStats (Inr interfaceStats) (Inr states) =
           Inr \<lparr>bytesIn = 0, bytesOut = 0, packetsIn = 0, packetsOut = 0,
                activeConnections = JNum 0\<rparr>"
  using assms(1-5) pfsense_forEach_unparsable [OF assms(6)]
  by (simp add: PfSense_getStats_def and_then_def js_or_def)

theorem C7_getStats_missing_counters_witness:
  "property stats_missing ''data'' =
     Inr (JObj [(''data'', JArr [JObj [(''inbytes'', JUndefined), (''outbytes'', JNull),
                                        (''inpkts'', JStr ''n/a'')]])]) \<and>
   parseInt (JStr ''n/a'') = None \<and>
   \<not> truthy JUndefined \<and>
   PfSense_getStats (Inr stats_missing) (Inr summary_missing) =
     Inr \<lparr>bytesIn = 0, bytesOut = 0, packetsIn = 0, packetsOut = 0,
          activeConnections = JNum 0\<rparr>"
proof -
  let ?iface = "JObj [(''inbytes'', JUndefined), (''outbytes'', JNull), (''inpkts'', JStr ''n/a'')]"
  have na: "parseInt (JStr ''n/a'') = None"
    by (simp add: parseInt_def parseInt_string_def digit_val_def is_space_def)
  have h1: "property stats_missing ''data'' = Inr (JObj [(''data'', JArr [?iface])])"
    by (simp add: stats_missing_def property_def)
  have h2: "property (JObj [(''data'', JArr [?iface])]) ''data'' = Inr (JArr [?iface])"
    by (simp add: property_def)
  have h3: "property summary_missing ''data'' = Inr (JObj [(''total'', JUndefined)])"
    by (simp add: summary_missing_def property_def)
  have h4: "property (JObj [(''total'', JUndefined)]) ''total'' = Inr JUndefined"
    by (simp add: property_def)
  have h5: "\<not> truthy JUndefined" by simp
  have h6: "\<forall>iface\<in>set [?iface]. \<not> nullish iface \<and>
           parseInt (field iface ''inbytes'') = None \<and> parseInt (field iface ''outbytes'') = None \<and>
           parseInt (field iface ''inpkts'') = None \<and> parseInt (field iface ''outpkts'') = None"
    using na by (simp add: parseInt_missing)
  from C7_getStats_missing_counters [OF h1 h2 h3 h4 h5 h6] h1 na h5 show ?thesis by simp
qed

text \<open>
  Claim C8. Whatever the outcome of the probe request, the health check of each of the
  three adapters returns a boolean and raises nothing: true when the probe is answered,
  false when it fails. The router adapter also returns false when it has no client,
  in which case no probe is sent.
\<close>

theorem C8_healthCheck_never_raises:
  "PfSense_healthCheck probe = Inr (\<not> isl probe) \<and>
   OpenDaylight_healthCheck probe = Inr (\<not> isl probe) \<and>
   fst (MikroTik_healthCheck ros mt) =
     Inr (client mt \<and> \<not> isl (ros_write ros (length (written mt)) ''/system/resource/print'' []))"
proof (intro conjI)
  show "PfSense_healthCheck probe = Inr (\<not> isl probe)"
    by (cases probe) (simp_all add: PfSense_healthCheck_def)
  show "OpenDaylight_healthCheck probe = Inr (\<not> isl probe)"
    by (cases probe) (simp_all add: OpenDaylight_healthCheck_def)
  show "fst (MikroTik_healthCheck ros mt) =
     Inr (client mt \<and> \<not> isl (ros_write ros (length (written mt)) ''/system/resource/print'' []))"
    by (cases "ros_write ros (length (written mt)) ''/system/resource/print'' []")
       (simp_all add: MikroTik_healthCheck_def executeCommand_def)
qed

text \<open>
  Claim C6. The router adapter is connected, the policy lists the ports 80 and 443 and
  the protocol \<open>tcp\<close>, and the router accepts the first two commands it is sent. Then
  \<open>applyQoSPolicy\<close> writes exactly three commands, in this order: the creation of the
  simple queue, a mangle rule with \<open>dst-port\<close> 80 and a mangle rule with \<open>dst-port\<close>
  443, both with protocol \<open>tcp\<close>. The call succeeds or fails with the router's reply
  to the third.
\<close>

theorem C6_router_policy_commands:
  assumes "client mt"
    and "ports policy = Some [80, 443]" and "protocol policy = Some ''tcp''"
    and "\<not> isl (ros_write ros (length (written mt)) ''/queue/simple/add'' (queue_params policy))"
    and "\<not> isl (ros_write ros (length (written mt) + 1) ''/ip/firewall/mangle/add''
                  (mangle_params policy 80))"
  shows "written (snd (MikroTik_applyQoSPolicy ros policy mt)) =
           written mt @
           [(''/queue/simple/add'', queue_params policy),
            (''/ip/firewall/mangle/add'',
               [(''chain'', JStr ''prerouting''), (''dst-port'', JStr ''80''),
                (''protocol'', JStr ''tcp''), (''action'', JStr ''mark-connection''),
                (''new-connection-mark'', JStr (qos_name policy @ ''_conn'')),
                (''comment'', JStr (''QoS mark for '' @ qos_name policy))]),
            (''/ip/firewall/mangle/add'',
               [(''chain'', JStr ''prerouting''), (''dst-port'', JStr ''443''),
                (''protocol'', JStr ''tcp''), (''action'', JStr ''mark-connection''),
                (''new-connection-mark'', JStr (qos_name policy @ ''_conn'')),
                (''comment'', JStr (''QoS mark for '' @ qos_name policy))])] \<and>
         fst (MikroTik_applyQoSPolicy ros policy mt) =
           (case ros_write ros (length (written mt) + 2) ''/ip/firewall/mangle/add''
                   (mangle_params policy 443) of
              Inl e \<Rightarrow> Inl e
            | Inr _ \<Rightarrow> Inr ())"
proof -
  have p80: "mangle_params policy 80 =
      [(''chain'', JStr ''prerouting''), (''dst-port'', JStr ''80''),
       (''protocol'', JStr ''tcp''), (''action'', JStr ''mark-connection''),
       (''new-connection-mark'', JStr (qos_name policy @ ''_conn'')),
       (''comment'', JStr (''QoS mark for '' @ qos_name policy))]"
    using assms(3) by (simp add: mangle_params_def number_toString_def digit_char_def)
  have p443: "mangle_params policy 443 =
      [(''chain'', JStr ''prerouting''), (''dst-port'', JStr ''443''),
       (''protocol'', JStr ''tcp''), (''action'', JStr ''mark-connection''),
       (''new-connection-mark'', JStr (qos_name policy @ ''_conn'')),
       (''comment'', JStr (''QoS mark for '' @ qos_name policy))]"
    using assms(3) by (simp add: mangle_params_def number_toString_def digit_char_def)
  obtain r1 where r1: "ros_write ros (length (written mt)) ''/queue/simple/add''
      (queue_params policy) = Inr r1"
    using assms(4) by (cases "ros_write ros (length (written mt)) ''/queue/simple/add''
      (queue_params policy)") simp_all
  obtain r2 where r2: "ros_write ros (Suc (length (written mt))) ''/ip/firewall/mangle/add''
      (mangle_params policy 80) = Inr r2"
    using assms(5) by (cases "ros_write ros (Suc (length (written mt))) ''/ip/firewall/mangle/add''
      (mangle_params policy 80)") simp_all
  show ?thesis
    unfolding p80 [symmetric] p443 [symmetric]
    using assms(1,2) r1 r2
    by (cases "ros_write ros (Suc (Suc (length (written mt)))) ''/ip/firewall/mangle/add''
          (mangle_params policy 443)")
       (simp_all add: MikroTik_applyQoSPolicy_def executeCommand_def)
qed


theorem C6_router_policy_commands_witness:
  "client router_connected \<and>
   ports policy_web = Some [80, 443] \<and> protocol policy_web = Some ''tcp'' \<and>
   written (snd (MikroTik_applyQoSPolicy ros_one_interface policy_web router_connected)) =
     [(''/queue/simple/add'', queue_params policy_web),
      (''/ip/firewall/mangle/add'',
         [(''chain'', JStr ''prerouting''), (''dst-port'', JStr ''80''),
          (''protocol'', JStr ''tcp''), (''action'', JStr ''mark-connection''),
          (''new-connection-mark'', JStr ''High Priority_conn''),
          (''comment'', JStr ''QoS mark for High Priority'')]),
      (''/ip/firewall/mangle/add'',
         [(''chain'', JStr ''prerouting''), (''dst-port'', JStr ''443''),
          (''protocol'', JStr ''tcp''), (''action'', JStr ''mark-connection''),
          (''new-connection-mark'', JStr ''High Priority_conn''),
          (''comment'', JStr ''QoS mark for High Priority'')])] \<and>
   fst (MikroTik_applyQoSPolicy ros_one_interface policy_web router_connected) = Inr ()"
proof -
  have h1: "client router_connected" by (simp add: router_connected_eq)
  have h2: "ports policy_web = Some [80, 443]" by (simp add: policy_web_def)
  have h3: "protocol policy_web = Some ''tcp''" by (simp add: policy_web_def)
  have h4: "\<not> isl (ros_write ros_one_interface (length (written router_connected))
      ''/queue/simple/add'' (queue_params policy_web))"
    by (simp add: ros_one_interface_def)
  have h5: "\<not> isl (ros_write ros_one_interface (length (written router_connected) + 1)
      ''/ip/firewall/mangle/add'' (mangle_params policy_web 80))"
    by (simp add: ros_one_interface_def)
  have n: "qos_name policy_web = ''High Priority''" by (simp add: policy_web_def)
  have w: "written router_connected = []" by (simp add: router_connected_eq)
  have r3: "ros_write ros_one_interface (length (written router_connected) + 2)
      ''/ip/firewall/mangle/add'' (mangle_params policy_web 443) = Inr (JArr [])"
    by (simp add: ros_one_interface_def)
  from C6_router_policy_commands [OF h1 h2 h3 h4 h5] h1 h2 h3 n w r3
  show ?thesis by simp
qed

text \<open>
  Claim C4. The router lists one interface, for which it has no address entry. The
  device that \<open>getDevices\<close> returns has, as its \<open>ipAddress\<close>, the promise of the
  address lookup, which is not the string \<open>unknown\<close>; the promise settles to it.
\<close>

theorem C4_router_ipAddress_is_promise:
  "fst (MikroTik_getDevices ros_one_interface router_connected) =
     Inr [\<lparr>dev_id = JStr ''*1'', dev_name = JStr ''ether1'', dev_type = JStr ''ether'',
           ipAddress = JPromise (JStr ''unknown''), dev_status = ''offline''\<rparr>] \<and>
   JPromise (JStr ''unknown'') \<noteq> JStr ''unknown''"
  by (simp add: MikroTik_getDevices_def executeCommand_def router_connected_eq
      ros_one_interface_def getInterfaceIp_def first_address_def and_then_def js_or_def)

text \<open>
  The other two adapters do store the vendor's value, or \<open>unknown\<close> when it is missing
  or empty; and the promise of the router adapter settles to \<open>unknown\<close> when the router
  has no address entry for the interface.
\<close>

lemma pfsense_device_ipAddress:
  "pfsense_device iface = Inr dev \<Longrightarrow>
   ipAddress dev = (if truthy (field iface ''ipaddr'') then field iface ''ipaddr''
                    else JStr ''unknown'')"
  by (auto simp: pfsense_device_def js_or_def split: if_splits)

lemma odl_device_ipAddress:
  "odl_device node = Inr dev \<Longrightarrow>
   ipAddress dev = (if truthy (field node ''flow-node-inventory:ip-address'')
                    then field node ''flow-node-inventory:ip-address'' else JStr ''unknown'')"
  by (auto simp: odl_device_def js_or_def split: if_splits)

lemma getInterfaceIp_no_entry:
  "client mt \<Longrightarrow>
   ros_write ros (length (written mt)) ''/ip/address/print'' [(''?interface'', name)] = Inr (JArr []) \<Longrightarrow>
   fst (getInterfaceIp ros name mt) = JStr ''unknown''"
  by (simp add: getInterfaceIp_def executeCommand_def first_address_def and_then_def js_or_def)

end
